theory Spec2Isabelle
  imports Main "HOL-Library.AList" "HOL-Library.Char_ord" "HOL-Library.List_Lexorder"
    "HOL-Library.Product_Lexorder" "HOL-Library.Multiset"
begin

section \<open>The pack manager cache of \<^verbatim>\<open>tools/arm_pack_manager/__init__.py\<close>\<close>

subsection \<open>Stripping the protocol: \<^verbatim>\<open>protocol_matcher\<close> and \<^verbatim>\<open>strip_protocol\<close>\<close>

text \<open>
  \<^verbatim>\<open>protocol_matcher = compile("\w*://")\<close>. The module is Python 2 (it imports
  \<^verbatim>\<open>Queue\<close>), the pattern is a byte string compiled without flags, so \<^verbatim>\<open>\w\<close> is
  \<^verbatim>\<open>[a-zA-Z0-9_]\<close>.
\<close>

definition is_word :: "char \<Rightarrow> bool" where
  "is_word c \<longleftrightarrow>
     c \<in> set ''abcdefghijklmnopqrstuvwxyzABCDEFGHIJKLMNOPQRSTUVWXYZ0123456789_''"

text \<open>Matching a literal at the start of the subject; the result is what follows the match.\<close>

fun match_literal :: "string \<Rightarrow> string \<Rightarrow> string option" where
  "match_literal [] s = Some s"
| "match_literal (l # ls) [] = None"
| "match_literal (l # ls) (c # cs) = (if l = c then match_literal ls cs else None)"

text \<open>
  Matching \<^verbatim>\<open>\w*://\<close> at the start of the subject, as the backtracking matcher does: the
  star is greedy, so one more word character is taken first, and only when the rest of the
  pattern fails after it is the literal tried at the current position.
\<close>

fun protocol_matcher :: "string \<Rightarrow> string option" where
  "protocol_matcher [] = match_literal ''://'' []"
| "protocol_matcher (c # cs) =
     (if is_word c
      then (case protocol_matcher cs of
              Some r \<Rightarrow> Some r
            | None \<Rightarrow> match_literal ''://'' (c # cs))
      else match_literal ''://'' (c # cs))"

lemma match_literal_length:
  "match_literal l s = Some r \<Longrightarrow> length s = length l + length r"
  by (induction l s rule: match_literal.induct) (auto split: if_splits)

lemma protocol_matcher_length:
  "protocol_matcher s = Some r \<Longrightarrow> length r + 3 \<le> length s"
proof (induction s)
  case Nil
  then show ?case by simp
next
  case (Cons c cs)
  show ?case
  proof (cases "is_word c \<and> protocol_matcher cs \<noteq> None")
    case True
    then obtain r' where r': "protocol_matcher cs = Some r'" by auto
    with True Cons.prems have "r' = r" by simp
    with Cons.IH r' show ?thesis by simp
  next
    case False
    with Cons.prems have "match_literal ''://'' (c # cs) = Some r"
      by (auto split: if_splits option.splits)
    from match_literal_length [OF this] show ?thesis by simp
  qed
qed

text \<open>
  \<^verbatim>\<open>protocol_matcher.sub("", s)\<close>: the subject is scanned from the left; where the pattern
  matches, the match is dropped and the scan goes on behind it; elsewhere one character
  is copied. The pattern never matches the empty string.
\<close>

function sub_empty :: "string \<Rightarrow> string" where
  "sub_empty [] = []"
| "sub_empty (c # cs) =
     (case protocol_matcher (c # cs) of
        Some rest \<Rightarrow> sub_empty rest
      | None \<Rightarrow> c # sub_empty cs)"
  by pat_completeness auto
termination
proof (relation "measure length")
  show "wf (measure length)" by simp
next
  fix c :: char and cs rest
  assume "protocol_matcher (c # cs) = Some rest"
  from protocol_matcher_length [OF this]
  show "(rest, c # cs) \<in> measure length" by simp
next
  fix c :: char and cs
  show "(cs, c # cs) \<in> measure length" by simp
qed

definition strip_protocol :: "string \<Rightarrow> string" where
  "strip_protocol url = sub_empty url"

text \<open>Whether the separator \<^verbatim>\<open>://\<close> occurs somewhere in a string.\<close>

fun has_separator :: "string \<Rightarrow> bool" where
  "has_separator [] = False"
| "has_separator (c # cs) \<longleftrightarrow> match_literal ''://'' (c # cs) \<noteq> None \<or> has_separator cs"


subsection \<open>Paths: \<^verbatim>\<open>os.path.join\<close> and \<^verbatim>\<open>os.path.dirname\<close> (posixpath, Python 2.7)\<close>

text \<open>
  \<^verbatim>\<open>join(a, b)\<close>: an absolute \<^verbatim>\<open>b\<close> replaces \<^verbatim>\<open>a\<close>; otherwise \<^verbatim>\<open>b\<close> is appended, with a
  slash between the two unless \<^verbatim>\<open>a\<close> is empty or already ends with one.
\<close>

definition join :: "string \<Rightarrow> string \<Rightarrow> string" where
  "join a b =
     (if take 1 b = ''/'' then b
      else if a = [] \<or> last a = CHR ''/'' then a @ b
      else a @ ''/'' @ b)"

text \<open>
  \<^verbatim>\<open>dirname(p)\<close>: everything up to and including the last slash, with trailing slashes
  removed unless it consists of slashes only.
\<close>

definition dirname :: "string \<Rightarrow> string" where
  "dirname p =
     (let head = rev (dropWhile (\<lambda>c. c \<noteq> CHR ''/'') (rev p))
      in if head \<noteq> [] \<and> head \<noteq> replicate (length head) (CHR ''/'')
         then rev (dropWhile (\<lambda>c. c = CHR ''/'') (rev head))
         else head)"

subsection \<open>Exceptions, parsed markup, device records\<close>

datatype py_error =
    KeyError
  | TypeError
  | AttributeError
  | ValueError
  | IOError string
  | OSError nat

definition EEXIST :: nat where
  "EEXIST = 17"

text \<open>
  A parsed element as BeautifulSoup presents it: its name, its attribute dictionary and
  its child elements in document order. The parsed document is the root element.
\<close>

datatype tag = Tag (tag_name: string) (attrs: "(string \<times> string) list") (contents: "tag list")

fun descendants :: "tag \<Rightarrow> tag list" where
  "descendants (Tag n a cs) = concat (map (\<lambda>c. c # descendants c) cs)"

text \<open>\<^verbatim>\<open>t(name)\<close>, that is \<^verbatim>\<open>t.find_all(name)\<close>: the descendants of that name, in document order.\<close>

definition find_all :: "tag \<Rightarrow> string \<Rightarrow> tag list" where
  "find_all t n = filter (\<lambda>x. tag_name x = n) (descendants t)"

text \<open>\<^verbatim>\<open>t.name\<close> for a child name: the first such descendant, or \<^verbatim>\<open>None\<close>.\<close>

definition find_first :: "tag \<Rightarrow> string \<Rightarrow> tag option" where
  "find_first t n = (case find_all t n of [] \<Rightarrow> None | x # _ \<Rightarrow> Some x)"

text \<open>
  \<^verbatim>\<open>x[key]\<close> where \<^verbatim>\<open>x\<close> is an element or \<^verbatim>\<open>None\<close>: subscripting \<^verbatim>\<open>None\<close> raises TypeError, a
  missing attribute raises KeyError.
\<close>

fun getitem :: "tag option \<Rightarrow> string \<Rightarrow> py_error + string" where
  "getitem None key = Inl TypeError"
| "getitem (Some t) key =
     (case map_of (attrs t) key of None \<Rightarrow> Inl KeyError | Some v \<Rightarrow> Inr v)"

text \<open>\<^verbatim>\<open>t.get(key)\<close>: the attribute or \<^verbatim>\<open>None\<close>.\<close>

definition get_attr :: "tag \<Rightarrow> string \<Rightarrow> string option" where
  "get_attr t key = map_of (attrs t) key"

text \<open>A list comprehension whose element expression may raise: the first raise ends it.\<close>

fun map_raise :: "('a \<Rightarrow> py_error + 'b) \<Rightarrow> 'a list \<Rightarrow> py_error + 'b list" where
  "map_raise f [] = Inr []"
| "map_raise f (x # xs) =
     (case f x of
        Inl err \<Rightarrow> Inl err
      | Inr y \<Rightarrow> (case map_raise f xs of Inl err \<Rightarrow> Inl err | Inr ys \<Rightarrow> Inr (y # ys)))"

text \<open>
  Python dictionaries as association lists with distinct keys: \<^verbatim>\<open>dict(pairs)\<close> and
  \<^verbatim>\<open>d.update(d2)\<close> store the pairs one after the other, a later pair replacing an earlier
  one with the same key.
\<close>

definition dict_update :: "('k \<times> 'v) list \<Rightarrow> ('k \<times> 'v) list \<Rightarrow> ('k \<times> 'v) list" where
  "dict_update d d2 = fold (\<lambda>(k, v). AList.update k v) d2 d"

definition dict :: "('k \<times> 'v) list \<Rightarrow> ('k \<times> 'v) list" where
  "dict pairs = dict_update [] pairs"

text \<open>
  The dictionary \<^verbatim>\<open>_extract_dict\<close> builds: \<^verbatim>\<open>file\<close> is always there, each other key is
  present (\<open>Some\<close>) or absent (\<open>None\<close>). A memory region is \<^verbatim>\<open>id\<close> mapped to
  \<^verbatim>\<open>(start, size)\<close>, \<^verbatim>\<open>compile\<close> is the pair \<^verbatim>\<open>(header, define)\<close>.
\<close>

record device_record =
  file' :: string
  memory :: "(string \<times> (string \<times> string)) list option"
  algorithm :: "string option"
  debug :: "string option"
  compile :: "(string \<times> string) option"

type_synonym device_index = "(string \<times> device_record) list"

text \<open>\<^verbatim>\<open>s.replace('\\', '/')\<close>.\<close>

definition replace_backslash :: "string \<Rightarrow> string" where
  "replace_backslash s = map (\<lambda>c. if c = CHR 0x5C then CHR ''/'' else c) s"

definition memory_entry :: "tag \<Rightarrow> py_error + (string \<times> (string \<times> string))" where
  "memory_entry m =
     (case getitem (Some m) ''id'' of
        Inl err \<Rightarrow> Inl err
      | Inr i \<Rightarrow>
          (case getitem (Some m) ''start'' of
             Inl err \<Rightarrow> Inl err
           | Inr st \<Rightarrow>
               (case getitem (Some m) ''size'' of
                  Inl err \<Rightarrow> Inl err
                | Inr sz \<Rightarrow> Inr (i, (st, sz)))))"

text \<open>The handler of \<^verbatim>\<open>_extract_dict\<close>: \<^verbatim>\<open>except (KeyError, TypeError): pass\<close>.\<close>

fun extract_handler :: "py_error \<Rightarrow> device_record \<Rightarrow> py_error + device_record" where
  "extract_handler KeyError to_ret = Inr to_ret"
| "extract_handler TypeError to_ret = Inr to_ret"
| "extract_handler err to_ret = Inl err"

text \<open>\<^verbatim>\<open>Cache._extract_dict(device, filename)\<close>.\<close>

definition extract_dict :: "tag \<Rightarrow> string \<Rightarrow> py_error + device_record" where
  "extract_dict device filename =
     (let to_ret = \<lparr>file' = filename, memory = None, algorithm = None, debug = None,
                     compile = None\<rparr>
      in case map_raise memory_entry (find_all device ''memory'') of
           Inl err \<Rightarrow> extract_handler err to_ret
         | Inr ms \<Rightarrow>
      let to_ret = to_ret\<lparr>memory := Some (dict ms)\<rparr>
      in case getitem (find_first device ''algorithm'') ''name'' of
           Inl err \<Rightarrow> extract_handler err to_ret
         | Inr a \<Rightarrow>
      let to_ret = to_ret\<lparr>algorithm := Some (replace_backslash a)\<rparr>
      in case getitem (find_first device ''debug'') ''svd'' of
           Inl err \<Rightarrow> extract_handler err to_ret
         | Inr svd \<Rightarrow>
      let to_ret = to_ret\<lparr>debug := Some svd\<rparr>
      in case getitem (find_first device ''compile'') ''header'' of
           Inl err \<Rightarrow> extract_handler err to_ret
         | Inr header \<Rightarrow>
      case getitem (find_first device ''compile'') ''define'' of
           Inl err \<Rightarrow> extract_handler err to_ret
         | Inr define \<Rightarrow> Inr (to_ret\<lparr>compile := Some (header, define)\<rparr>))"


subsection \<open>The surroundings and the state\<close>

text \<open>
  What the module takes from outside itself, as a record of functions:
  \<^item> \<open>data_dir\<close>: the value of \<^verbatim>\<open>save_data_path('arm-pack-manager')\<close>;
  \<^item> \<open>makedirs\<close>: for a directory, the \<^verbatim>\<open>errno\<close> of the OSError that \<^verbatim>\<open>makedirs\<close> raises
    there, if it raises;
  \<^item> \<open>open_errno\<close>: for a path, the \<^verbatim>\<open>errno\<close> of the IOError that \<^verbatim>\<open>open(path, "wb+")\<close>
    raises there, if it raises, for a reason other than those that \<open>open_wb\<close> below reads
    off the path and the regular files (say, a directory exists at the path, or the
    directory of the path may not be written to);
  \<^item> \<open>curl_perform\<close>: for the \<^verbatim>\<open>no_timeouts\<close> flag and a URL, the bytes \<^verbatim>\<open>curl.perform()\<close>
    writes to the open file and, if it raises, the text of the exception;
  \<^item> \<open>soup\<close>: \<^verbatim>\<open>BeautifulSoup(fd, "html.parser")\<close> on a file's bytes;
  \<^item> \<open>json_dump\<close>, \<open>json_load\<close>: \<^verbatim>\<open>json.dump\<close> and \<^verbatim>\<open>json.load\<close>;
  \<^item> \<open>scorer\<close>: the score (0 to 100) fuzzywuzzy gives a choice for a query;
  \<^item> \<open>schedule\<close>: the order in which the calls made by the worker threads of \<^verbatim>\<open>do_queue\<close>
    take effect, for the items queued.
\<close>

record env =
  data_dir :: string
  makedirs :: "string \<Rightarrow> nat option"
  open_errno :: "string \<Rightarrow> nat option"
  curl_perform :: "bool \<Rightarrow> string \<Rightarrow> string \<times> string option"
  soup :: "string \<Rightarrow> tag"
  json_dump :: "device_index \<Rightarrow> string"
  json_load :: "string \<Rightarrow> py_error + device_index"
  scorer :: "string \<Rightarrow> string \<Rightarrow> nat"
  schedule :: "string list \<Rightarrow> string list"

text \<open>What is written to \<^verbatim>\<open>stdout\<close> and \<^verbatim>\<open>stderr\<close>, one event for each write.\<close>

datatype event =
    Caching string
  | Progress string nat nat
  | DownloadError string string
  | Printed py_error
  | Newline

text \<open>
  The \<^verbatim>\<open>Cache\<close> object (\<^verbatim>\<open>_index\<close> is \<open>index'\<close>, \<^verbatim>\<open>total\<close> is \<open>total'\<close>) together with
  what it acts on: the files on disk and the two output streams. The disk is a map from
  the paths of the regular files, as they are written, to their contents; directories are
  not recorded. Opening a path without a file for reading raises IOError.
\<close>

record cache =
  silent :: bool
  counter :: nat
  total' :: nat
  index' :: device_index
  urls :: "string list option"
  no_timeouts :: bool
  files :: "string \<rightharpoonup> string"
  stdout :: "event list"
  stderr :: "event list"

definition RootPackURL :: string where
  "RootPackURL = ''http://www.keil.com/pack/index.idx''"

text \<open>\<^verbatim>\<open>Cache.__init__(silent, no_timeouts)\<close>, on a given disk.\<close>

definition init :: "bool \<Rightarrow> bool \<Rightarrow> (string \<rightharpoonup> string) \<Rightarrow> cache" where
  "init silent_arg no_timeouts_arg disk =
     \<lparr>silent = silent_arg, counter = 0, total' = 1, index' = [], urls = None,
      no_timeouts = no_timeouts_arg, files = disk, stdout = [], stderr = []\<rparr>"

definition display_counter :: "string \<Rightarrow> cache \<Rightarrow> cache" where
  "display_counter message st =
     st\<lparr>stdout := stdout st @ [Progress message (counter st) (total' st)]\<rparr>"

text \<open>
  \<^verbatim>\<open>do_queue(Class, function, iterable)\<close>: twenty threads take the items from a queue and
  call the function on each; the caller waits in \<^verbatim>\<open>q.join()\<close>. The calls take effect one
  after the other in the order \<open>schedule\<close> gives, a rearrangement of the items that the
  source does not fix (the properties below that need it assume
  \<open>mset (schedule e items) = mset items\<close>). An exception that leaves a call ends
  its thread before \<^verbatim>\<open>task_done\<close>, so \<^verbatim>\<open>q.join()\<close> never returns: \<open>Inl\<close> of that exception
  stands for this outcome.
\<close>

fun run_all :: "('a \<Rightarrow> 's \<Rightarrow> py_error + 's) \<Rightarrow> 'a list \<Rightarrow> 's \<Rightarrow> py_error + 's" where
  "run_all f [] st = Inr st"
| "run_all f (x # xs) st =
     (case f x st of Inl err \<Rightarrow> Inl err | Inr st1 \<Rightarrow> run_all f xs st1)"

definition do_queue ::
  "env \<Rightarrow> (string \<Rightarrow> cache \<Rightarrow> py_error + cache) \<Rightarrow> string list \<Rightarrow> cache \<Rightarrow> py_error + cache"
where
  "do_queue e function iterable st = run_all function (schedule e iterable) st"

subsection \<open>Caching files\<close>

text \<open>
  The directories a path lies under, outermost first: the prefixes of the path that a slash
  follows, the empty prefix and those that end with a slash themselves left out.
\<close>

fun parents_from :: "string \<Rightarrow> string \<Rightarrow> string list" where
  "parents_from seen [] = []"
| "parents_from seen (c # cs) =
     (if c = CHR ''/'' \<and> seen \<noteq> [] \<and> last seen \<noteq> CHR ''/'' then [seen] else []) @
     parents_from (seen @ [c]) cs"

definition parents :: "string \<Rightarrow> string list" where
  "parents path = parents_from [] path"

text \<open>
  \<^verbatim>\<open>open(dest, "wb+")\<close> on a given disk: the IOError it raises, if it raises. It raises for
  the empty path and for a path with a trailing slash, which can only name a directory, for
  a path under a regular file of the disk, and wherever the surroundings make it raise.
\<close>

definition open_wb :: "env \<Rightarrow> (string \<rightharpoonup> string) \<Rightarrow> string \<Rightarrow> py_error option" where
  "open_wb e disk dest =
     (if dest = [] \<or> last dest = CHR ''/'' then Some (IOError dest)
      else if list_ex (\<lambda>p. disk p \<noteq> None) (parents dest) then Some (IOError dest)
      else case open_errno e dest of
             None \<Rightarrow> None
           | Some errno \<Rightarrow> Some (IOError dest))"

text \<open>
  \<^verbatim>\<open>Cache.cache_file(curl, url)\<close>. \<^verbatim>\<open>makedirs\<close> may raise; EEXIST is passed over, any other
  OSError is raised again. \<^verbatim>\<open>open(dest, "wb+")\<close> is outside every handler: its IOError
  leaves the call, before the download and before the counter is touched. Where it returns,
  it has created the file or emptied it, and \<^verbatim>\<open>curl.perform()\<close> writes into it; an exception
  of \<^verbatim>\<open>perform\<close> is written to \<^verbatim>\<open>stderr\<close>.
\<close>

definition cache_file :: "env \<Rightarrow> string \<Rightarrow> cache \<Rightarrow> py_error + cache" where
  "cache_file e url st =
     (let st1 = (if \<not> silent st then st\<lparr>stdout := stdout st @ [Caching url]\<rparr> else st);
          dest = join (data_dir e) (strip_protocol url)
      in case (case makedirs e (dirname dest) of
                 None \<Rightarrow> None
               | Some errno \<Rightarrow> if errno = EEXIST then None else Some (OSError errno)) of
           Some err \<Rightarrow> Inl err
         | None \<Rightarrow>
             (case open_wb e (files st1) dest of
                Some err \<Rightarrow> Inl err
              | None \<Rightarrow>
                  (case curl_perform e (no_timeouts st1) url of
                     (written, raised) \<Rightarrow>
                       let st2 = st1\<lparr>files := (files st1)(dest \<mapsto> written)\<rparr>;
                           st3 = (case raised of
                                    None \<Rightarrow> st2
                                  | Some msg \<Rightarrow>
                                      st2\<lparr>stderr := stderr st2 @ [DownloadError url msg]\<rparr>);
                           st4 = st3\<lparr>counter := counter st3 + 1\<rparr>
                       in Inr (display_counter ''Caching Files'' st4))))"

text \<open>\<^verbatim>\<open>Cache.pull_from_cache(url)\<close>: \<^verbatim>\<open>open(dest, "r")\<close> raises IOError when there is no file.\<close>

definition pull_from_cache :: "env \<Rightarrow> cache \<Rightarrow> string \<Rightarrow> py_error + tag" where
  "pull_from_cache e st url =
     (let dest = join (data_dir e) (strip_protocol url)
      in case files st dest of
           None \<Rightarrow> Inl (IOError dest)
         | Some fd \<Rightarrow> Inr (soup e fd))"

text \<open>\<^verbatim>\<open>Cache.cache_and_parse(url)\<close>.\<close>

definition cache_and_parse :: "env \<Rightarrow> string \<Rightarrow> cache \<Rightarrow> py_error + (tag \<times> cache)" where
  "cache_and_parse e url st =
     (case cache_file e url st of
        Inl err \<Rightarrow> Inl err
      | Inr st1 \<Rightarrow>
          (case pull_from_cache e st1 url of
             Inl err \<Rightarrow> Inl err
           | Inr content \<Rightarrow> Inr (content, st1)))"

text \<open>
  \<^verbatim>\<open>join(pdsc.get('url'), pdsc.get('name'))\<close>, where \<^verbatim>\<open>get\<close> gives \<^verbatim>\<open>None\<close> for a missing
  attribute: \<^verbatim>\<open>join\<close> calls \<^verbatim>\<open>startswith\<close> on its second argument and, unless that is
  absolute, \<^verbatim>\<open>endswith\<close> on its first, and \<^verbatim>\<open>None\<close> has neither.
\<close>

fun join_opt :: "string option \<Rightarrow> string option \<Rightarrow> py_error + string" where
  "join_opt a None = Inl AttributeError"
| "join_opt None (Some b) = (if take 1 b = ''/'' then Inr b else Inl AttributeError)"
| "join_opt (Some a) (Some b) = Inr (join a b)"

text \<open>\<^verbatim>\<open>Cache.get_urls()\<close>; \<^verbatim>\<open>not self.urls\<close> holds for \<^verbatim>\<open>None\<close> and for the empty list.\<close>

definition get_urls :: "env \<Rightarrow> cache \<Rightarrow> py_error + (string list \<times> cache)" where
  "get_urls e st =
     (case urls st of
        Some (u # us) \<Rightarrow> Inr (u # us, st)
      | _ \<Rightarrow>
          (case (case pull_from_cache e st RootPackURL of
                   Inl (IOError p) \<Rightarrow> cache_and_parse e RootPackURL st
                 | Inl err \<Rightarrow> Inl err
                 | Inr content \<Rightarrow> Inr (content, st)) of
             Inl err \<Rightarrow> Inl err
           | Inr (root_data, st1) \<Rightarrow>
               (case map_raise (\<lambda>pdsc. join_opt (get_attr pdsc ''url'') (get_attr pdsc ''name''))
                       (find_all root_data ''pdsc'') of
                  Inl err \<Rightarrow> Inl err
                | Inr new_urls \<Rightarrow> Inr (new_urls, st1\<lparr>urls := Some new_urls\<rparr>))))"

text \<open>\<^verbatim>\<open>Cache.cache_descriptor_list(list)\<close>.\<close>

definition cache_descriptor_list :: "env \<Rightarrow> string list \<Rightarrow> cache \<Rightarrow> py_error + cache" where
  "cache_descriptor_list e list st =
     (let st1 = display_counter ''Caching Files'' (st\<lparr>total' := length list\<rparr>)
      in case do_queue e (cache_file e) list st1 of
           Inl err \<Rightarrow> Inl err
         | Inr st2 \<Rightarrow> Inr (st2\<lparr>stdout := stdout st2 @ [Newline]\<rparr>))"

subsection \<open>Building the index\<close>

text \<open>
  \<^verbatim>\<open>Cache._generate_index_helper(d)\<close>. The handler is \<^verbatim>\<open>except AttributeError\<close>: any other
  exception leaves the call.
\<close>

definition device_entry :: "string \<Rightarrow> tag \<Rightarrow> py_error + (string \<times> device_record)" where
  "device_entry d dev =
     (case getitem (Some dev) ''dname'' of
        Inl err \<Rightarrow> Inl err
      | Inr dname \<Rightarrow>
          (case extract_dict dev d of
             Inl err \<Rightarrow> Inl err
           | Inr to_ret \<Rightarrow> Inr (dname, to_ret)))"

definition generate_index_helper :: "env \<Rightarrow> string \<Rightarrow> cache \<Rightarrow> py_error + cache" where
  "generate_index_helper e d st =
     (case (case (case pull_from_cache e st d of
                    Inl err \<Rightarrow> Inl err
                  | Inr content \<Rightarrow> map_raise (device_entry d) (find_all content ''device'')) of
              Inl AttributeError \<Rightarrow> Inr (st\<lparr>stdout := stdout st @ [Printed AttributeError]\<rparr>)
            | Inl err \<Rightarrow> Inl err
            | Inr entries \<Rightarrow> Inr (st\<lparr>index' := dict_update (index' st) (dict entries)\<rparr>)) of
        Inl err \<Rightarrow> Inl err
      | Inr st1 \<Rightarrow>
          Inr (display_counter ''Generating Index'' (st1\<lparr>counter := counter st1 + 1\<rparr>)))"

text \<open>\<^verbatim>\<open>Cache.generate_index()\<close>; the snapshot is written to \<^verbatim>\<open>index.json\<close> in the data directory.\<close>

definition generate_index :: "env \<Rightarrow> cache \<Rightarrow> py_error + cache" where
  "generate_index e st =
     (let st1 = st\<lparr>index' := [], counter := 0\<rparr>
      in case get_urls e st1 of
           Inl err \<Rightarrow> Inl err
         | Inr (us, st2) \<Rightarrow>
             (case do_queue e (generate_index_helper e) us st2 of
                Inl err \<Rightarrow> Inl err
              | Inr st3 \<Rightarrow>
                  Inr (st3\<lparr>files := (files st3)(join (data_dir e) ''index.json'' \<mapsto>
                                                   json_dump e (index' st3)),
                           stdout := stdout st3 @ [Newline]\<rparr>)))"

text \<open>
  The property \<^verbatim>\<open>Cache.index\<close>: with an empty \<^verbatim>\<open>_index\<close> the snapshot is loaded, and on
  IOError the index is generated; the value is \<^verbatim>\<open>_index\<close>.
\<close>

definition index :: "env \<Rightarrow> cache \<Rightarrow> py_error + (device_index \<times> cache)" where
  "index e st =
     (if index' st = []
      then (case (case files st (join (data_dir e) ''index.json'') of
                    None \<Rightarrow> Inl (IOError (join (data_dir e) ''index.json''))
                  | Some i \<Rightarrow> json_load e i) of
              Inl (IOError p) \<Rightarrow>
                (case generate_index e st of
                   Inl err \<Rightarrow> Inl err
                 | Inr st1 \<Rightarrow> Inr (index' st1, st1))
            | Inl err \<Rightarrow> Inl err
            | Inr loaded \<Rightarrow> Inr (loaded, st\<lparr>index' := loaded\<rparr>))
      else Inr (index' st, st))"


subsection \<open>Finding a device\<close>






subsection \<open>Notions used to state the properties\<close>

text \<open>\<^verbatim>\<open>makedirs\<close> lets \<^verbatim>\<open>cache_file\<close> go on for this URL: it returns, or raises EEXIST.\<close>

definition makedirs_passes :: "env \<Rightarrow> string \<Rightarrow> bool" where
  "makedirs_passes e url \<longleftrightarrow>
     makedirs e (dirname (join (data_dir e) (strip_protocol url))) \<in> {None, Some EEXIST}"

text \<open>\<^verbatim>\<open>open\<close> lets \<^verbatim>\<open>cache_file\<close> go on for this URL on this disk: it does not raise.\<close>

definition open_passes :: "env \<Rightarrow> (string \<rightharpoonup> string) \<Rightarrow> string \<Rightarrow> bool" where
  "open_passes e disk url \<longleftrightarrow>
     open_wb e disk (join (data_dir e) (strip_protocol url)) = None"

text \<open>What a call that returns leaves behind, seen through \<open>f\<close>; a raise stays a raise.\<close>

definition on_return :: "('s \<Rightarrow> 'a) \<Rightarrow> py_error + 's \<Rightarrow> py_error + 'a" where
  "on_return f r = (case r of Inl err \<Rightarrow> Inl err | Inr s \<Rightarrow> Inr (f s))"



text \<open>
  What \<^verbatim>\<open>_generate_index_helper\<close> reads of a descriptor on a given disk: the entries of its
  device elements, or the exception raised on the way.
\<close>

definition descriptor_entries ::
  "env \<Rightarrow> (string \<rightharpoonup> string) \<Rightarrow> string \<Rightarrow> py_error + (string \<times> device_record) list"
where
  "descriptor_entries e disk d =
     (case disk (join (data_dir e) (strip_protocol d)) of
        None \<Rightarrow> Inl (IOError (join (data_dir e) (strip_protocol d)))
      | Some fd \<Rightarrow> map_raise (device_entry d) (find_all (soup e fd) ''device''))"

text \<open>The device names a descriptor on a given disk gives entries for.\<close>

definition descriptor_names :: "env \<Rightarrow> (string \<rightharpoonup> string) \<Rightarrow> string \<Rightarrow> string set" where
  "descriptor_names e disk d =
     (case descriptor_entries e disk d of
        Inl err \<Rightarrow> {}
      | Inr entries \<Rightarrow> fst ` set entries)"

text \<open>What the index is a function of, and what a rebuild leaves behind of it.\<close>

definition index_and_files :: "cache \<Rightarrow> device_index \<times> (string \<rightharpoonup> string)" where
  "index_and_files st = (index' st, files st)"

subsection \<open>Example surroundings\<close>

text \<open>
  A pack index that lists three descriptors on the host \<^verbatim>\<open>h\<close>. \<^verbatim>\<open>A.pdsc\<close> downloads whole;
  the download of \<^verbatim>\<open>B.pdsc\<close> raises before anything is received; the download of \<^verbatim>\<open>C.pdsc\<close>
  raises after its first device element has been received. \<^verbatim>\<open>A2.pdsc\<close> describes the
  device of \<^verbatim>\<open>A.pdsc\<close> again, differently, and \<^verbatim>\<open>D.pdsc\<close> has a device element without
  \<^verbatim>\<open>Dname\<close>. \<open>example_soup\<close> gives the documents the parser makes of these texts
  (\<^verbatim>\<open>html.parser\<close> writes names in lower case).
\<close>

definition no_files :: "string \<rightharpoonup> string" where
  "no_files path = None"

definition example_root :: string where
  "example_root =
     ''<index><pdsc url=http://h/ name=A.pdsc><pdsc url=http://h/ name=B.pdsc>'' @
     ''<pdsc url=http://h/ name=C.pdsc></index>''"

definition example_root2 :: string where
  "example_root2 =
     ''<index><pdsc url=http://h/ name=A.pdsc><pdsc url=http://h/ name=A2.pdsc></index>''"

definition example_A :: string where
  "example_A =
     ''<device Dname=LPC1768><memory id=IROM1 start=0x0 size=0x80000>'' @
     ''<algorithm name=Flash/LPC_IAP_512.FLM></device>''"

definition example_A2 :: string where
  "example_A2 = ''<device Dname=LPC1768><memory id=IROM1 start=0x0 size=0x40000></device>''"

definition example_C_received :: string where
  "example_C_received = ''<device Dname=LPC1769><memory id=IROM1 start=0x0 size=0x80000>''"

definition example_D :: string where
  "example_D = ''<device><memory id=IROM1 start=0x0 size=0x80000></device>''"

definition example_soup :: "string \<Rightarrow> tag" where
  "example_soup fd =
     Tag ''[document]'' []
       (if fd = example_root then
          [Tag ''index'' []
            [Tag ''pdsc'' [(''url'', ''http://h/''), (''name'', ''A.pdsc'')] [],
             Tag ''pdsc'' [(''url'', ''http://h/''), (''name'', ''B.pdsc'')] [],
             Tag ''pdsc'' [(''url'', ''http://h/''), (''name'', ''C.pdsc'')] []]]
        else if fd = example_root2 then
          [Tag ''index'' []
            [Tag ''pdsc'' [(''url'', ''http://h/''), (''name'', ''A.pdsc'')] [],
             Tag ''pdsc'' [(''url'', ''http://h/''), (''name'', ''A2.pdsc'')] []]]
        else if fd = example_A then
          [Tag ''device'' [(''dname'', ''LPC1768'')]
            [Tag ''memory'' [(''id'', ''IROM1''), (''start'', ''0x0''), (''size'', ''0x80000'')] [],
             Tag ''algorithm'' [(''name'', ''Flash/LPC_IAP_512.FLM'')] []]]
        else if fd = example_A2 then
          [Tag ''device'' [(''dname'', ''LPC1768'')]
            [Tag ''memory'' [(''id'', ''IROM1''), (''start'', ''0x0''), (''size'', ''0x40000'')] []]]
        else if fd = example_C_received then
          [Tag ''device'' [(''dname'', ''LPC1769'')]
            [Tag ''memory'' [(''id'', ''IROM1''), (''start'', ''0x0''), (''size'', ''0x80000'')] []]]
        else if fd = example_D then
          [Tag ''device'' []
            [Tag ''memory'' [(''id'', ''IROM1''), (''start'', ''0x0''), (''size'', ''0x80000'')] []]]
        else [])"

definition example_perform :: "bool \<Rightarrow> string \<Rightarrow> string \<times> string option" where
  "example_perform without_timeouts url =
     (if url = RootPackURL then (example_root, None)
      else if url = ''http://h/A.pdsc'' then (example_A, None)
      else if url = ''http://h/B.pdsc'' then ([], Some ''Connection timed out'')
      else if url = ''http://h/C.pdsc'' then (example_C_received, Some ''Operation too slow'')
      else ([], Some ''Could not resolve host''))"

definition example_makedirs :: "string \<Rightarrow> nat option" where
  "example_makedirs directory = None"

definition example_open :: "string \<Rightarrow> nat option" where
  "example_open path = None"

text \<open>A stand-in for the serialiser: the device names, each followed by a semicolon.\<close>

fun example_dump :: "device_index \<Rightarrow> string" where
  "example_dump [] = []"
| "example_dump (entry # idx) = fst entry @ '';'' @ example_dump idx"

text \<open>The index of the example: the device of \<^verbatim>\<open>A.pdsc\<close> and the device received of \<^verbatim>\<open>C.pdsc\<close>.\<close>

definition example_index :: device_index where
  "example_index =
     [(''LPC1768'', \<lparr>file' = ''http://h/A.pdsc'',
         memory = Some [(''IROM1'', (''0x0'', ''0x80000''))],
         algorithm = Some ''Flash/LPC_IAP_512.FLM'', debug = None, compile = None\<rparr>),
      (''LPC1769'', \<lparr>file' = ''http://h/C.pdsc'',
         memory = Some [(''IROM1'', (''0x0'', ''0x80000''))],
         algorithm = None, debug = None, compile = None\<rparr>)]"

text \<open>
  A stand-in for the parser of the snapshot: it reads the empty snapshot and the snapshot
  of the example.
\<close>

definition example_load :: "string \<Rightarrow> py_error + device_index" where
  "example_load fd =
     (if fd = [] then Inr []
      else if fd = ''LPC1768;LPC1769;'' then Inr example_index
      else Inl ValueError)"

text \<open>A stand-in for the similarity score: the number of leading characters in common.\<close>

fun example_scorer :: "string \<Rightarrow> string \<Rightarrow> nat" where
  "example_scorer (a # as) (b # bs) = (if a = b then Suc (example_scorer as bs) else 0)"
| "example_scorer _ _ = 0"

definition example_fifo :: "string list \<Rightarrow> string list" where
  "example_fifo items = items"

definition example_env :: env where
  "example_env =
     \<lparr>data_dir = ''/data/arm-pack-manager'', makedirs = example_makedirs,
      open_errno = example_open, curl_perform = example_perform, soup = example_soup,
      json_dump = example_dump, json_load = example_load, scorer = example_scorer,
      schedule = example_fifo\<rparr>"

text \<open>The same surroundings later, when the pack index on the server has changed.\<close>

definition example_perform_later :: "bool \<Rightarrow> string \<Rightarrow> string \<times> string option" where
  "example_perform_later without_timeouts url =
     (if url = RootPackURL then (example_root2, None)
      else example_perform without_timeouts url)"

definition example_env_later :: env where
  "example_env_later = example_env\<lparr>curl_perform := example_perform_later\<rparr>"

text \<open>The same surroundings with the workers' calls landing in the opposite order.\<close>

definition example_env_reversed :: env where
  "example_env_reversed = example_env\<lparr>schedule := rev\<rparr>"


definition example_state_cached :: cache where
  "example_state_cached =
     \<lparr>silent = True, counter = 4, total' = 3, index' = [],
      urls = Some [''http://h/A.pdsc'', ''http://h/B.pdsc'', ''http://h/C.pdsc''],
      no_timeouts = False,
      files = no_files(''/data/arm-pack-manager/www.keil.com/pack/index.idx'' \<mapsto> example_root,
        ''/data/arm-pack-manager/h/A.pdsc'' \<mapsto> example_A,
        ''/data/arm-pack-manager/h/B.pdsc'' \<mapsto> [],
        ''/data/arm-pack-manager/h/C.pdsc'' \<mapsto> example_C_received),
      stdout = [Progress ''Caching Files'' 1 1, Progress ''Caching Files'' 1 3,
        Progress ''Caching Files'' 2 3, Progress ''Caching Files'' 3 3,
        Progress ''Caching Files'' 4 3, Newline],
      stderr = [DownloadError ''http://h/B.pdsc'' ''Connection timed out'',
        DownloadError ''http://h/C.pdsc'' ''Operation too slow'']\<rparr>"

definition example_state_indexed :: cache where
  "example_state_indexed =
     \<lparr>silent = True, counter = 3, total' = 3, index' = example_index,
      urls = Some [''http://h/A.pdsc'', ''http://h/B.pdsc'', ''http://h/C.pdsc''],
      no_timeouts = False,
      files = no_files(''/data/arm-pack-manager/www.keil.com/pack/index.idx'' \<mapsto> example_root,
        ''/data/arm-pack-manager/h/A.pdsc'' \<mapsto> example_A,
        ''/data/arm-pack-manager/h/B.pdsc'' \<mapsto> [],
        ''/data/arm-pack-manager/h/C.pdsc'' \<mapsto> example_C_received,
        ''/data/arm-pack-manager/index.json'' \<mapsto> ''LPC1768;LPC1769;''),
      stdout = [Progress ''Caching Files'' 1 1, Progress ''Caching Files'' 1 3,
        Progress ''Caching Files'' 2 3, Progress ''Caching Files'' 3 3,
        Progress ''Caching Files'' 4 3, Newline,
        Progress ''Generating Index'' 1 3, Progress ''Generating Index'' 2 3,
        Progress ''Generating Index'' 3 3, Newline],
      stderr = [DownloadError ''http://h/B.pdsc'' ''Connection timed out'',
        DownloadError ''http://h/C.pdsc'' ''Operation too slow'']\<rparr>"

text \<open>
  A fresh \<^verbatim>\<open>Cache\<close> object on a disk that holds the three descriptor files but neither
  the pack index nor the snapshot.
\<close>

definition example_state_no_root :: cache where
  "example_state_no_root =
     init True False
       (no_files(''/data/arm-pack-manager/h/A.pdsc'' \<mapsto> example_A,
          ''/data/arm-pack-manager/h/B.pdsc'' \<mapsto> [],
          ''/data/arm-pack-manager/h/C.pdsc'' \<mapsto> example_C_received))"

text \<open>That state after \<^verbatim>\<open>generate_index\<close>, which fetches the pack index first.\<close>

definition example_state_regenerated :: cache where
  "example_state_regenerated =
     \<lparr>silent = True, counter = 4, total' = 1, index' = example_index,
      urls = Some [''http://h/A.pdsc'', ''http://h/B.pdsc'', ''http://h/C.pdsc''],
      no_timeouts = False,
      files = no_files(''/data/arm-pack-manager/h/A.pdsc'' \<mapsto> example_A,
        ''/data/arm-pack-manager/h/B.pdsc'' \<mapsto> [],
        ''/data/arm-pack-manager/h/C.pdsc'' \<mapsto> example_C_received,
        ''/data/arm-pack-manager/www.keil.com/pack/index.idx'' \<mapsto> example_root,
        ''/data/arm-pack-manager/index.json'' \<mapsto> ''LPC1768;LPC1769;''),
      stdout = [Progress ''Caching Files'' 1 1, Progress ''Generating Index'' 2 1,
        Progress ''Generating Index'' 3 1, Progress ''Generating Index'' 4 1, Newline],
      stderr = []\<rparr>"

text \<open>
  A \<^verbatim>\<open>Cache\<close> object that knows the URLs of \<^verbatim>\<open>D.pdsc\<close> and \<^verbatim>\<open>A.pdsc\<close>, both cached;
  \<^verbatim>\<open>D.pdsc\<close> has a device element without \<^verbatim>\<open>Dname\<close>.
\<close>

definition example_state_malformed :: cache where
  "example_state_malformed =
     \<lparr>silent = True, counter = 0, total' = 2, index' = [],
      urls = Some [''http://h/D.pdsc'', ''http://h/A.pdsc''], no_timeouts = False,
      files = no_files(''/data/arm-pack-manager/h/D.pdsc'' \<mapsto> example_D,
        ''/data/arm-pack-manager/h/A.pdsc'' \<mapsto> example_A),
      stdout = [], stderr = []\<rparr>"

text \<open>
  The state after \<^verbatim>\<open>generate_index\<close> with one more device in the index, the same with the
  dictionary enumerated in the opposite order, and a fresh object on a disk whose snapshot
  is that of an empty index.
\<close>

definition example_index3 :: device_index where
  "example_index3 =
     example_index @
     [(''LPC1114'', \<lparr>file' = ''http://h/E.pdsc'', memory = None, algorithm = None,
         debug = None, compile = None\<rparr>)]"




text \<open>
  A fresh \<^verbatim>\<open>Cache\<close> object on a disk that holds a pack index listing \<^verbatim>\<open>A.pdsc\<close> and
  \<^verbatim>\<open>A2.pdsc\<close>, and these two descriptors, which both describe the device LPC1768.
\<close>

definition example_state_collision :: cache where
  "example_state_collision =
     init True False
       (no_files(''/data/arm-pack-manager/www.keil.com/pack/index.idx'' \<mapsto> example_root2,
          ''/data/arm-pack-manager/h/A.pdsc'' \<mapsto> example_A,
          ''/data/arm-pack-manager/h/A2.pdsc'' \<mapsto> example_A2))"

text \<open>The state after \<^verbatim>\<open>cache_descriptor_list\<close> with a stale index and counter in memory.\<close>

definition example_state_stale :: cache where
  "example_state_stale = example_state_cached\<lparr>index' := example_index3, counter := 7\<rparr>"

section \<open>Properties\<close>

subsection \<open>What \<^verbatim>\<open>strip_protocol\<close> removes\<close>

lemma protocol_matcher_None_literal:
  "protocol_matcher s = None \<Longrightarrow> match_literal ''://'' s = None"
  by (cases s) (auto split: if_splits option.splits)

lemma protocol_matcher_has_separator:
  "protocol_matcher s = Some r \<Longrightarrow> has_separator s"
  by (induction s) (auto split: if_splits option.splits)

lemma sub_empty_fixed: "\<not> has_separator s \<Longrightarrow> sub_empty s = s"
proof (induction s)
  case Nil
  then show ?case by simp
next
  case (Cons c cs)
  have "protocol_matcher (c # cs) = None"
    using protocol_matcher_has_separator [of "c # cs"] Cons.prems
    by (cases "protocol_matcher (c # cs)") auto
  with Cons show ?case by simp
qed

lemma sub_empty_length: "length (sub_empty s) \<le> length s"
proof (induction s rule: sub_empty.induct)
  case 1
  show ?case by simp
next
  case (2 c cs)
  show ?case
  proof (cases "protocol_matcher (c # cs)")
    case None
    with 2 show ?thesis by simp
  next
    case (Some rest)
    with 2 protocol_matcher_length [OF Some] show ?thesis by simp
  qed
qed

lemma sub_empty_shrinks: "has_separator s \<Longrightarrow> length (sub_empty s) < length s"
proof (induction s rule: sub_empty.induct)
  case 1
  then show ?case by simp
next
  case (2 c cs)
  show ?case
  proof (cases "protocol_matcher (c # cs)")
    case None
    from protocol_matcher_None_literal [OF None] "2.prems" have "has_separator cs" by simp
    with 2 None show ?thesis by simp
  next
    case (Some rest)
    with sub_empty_length [of rest] protocol_matcher_length [OF Some] show ?thesis by simp
  qed
qed

text \<open>
  Claim C9, as stated: applying \<^verbatim>\<open>strip_protocol\<close> twice equals applying it once, for every
  string. It fails where removing a match joins the text around it into a new separator:
  \<^verbatim>\<open>http:x:////host\<close> becomes \<^verbatim>\<open>http://host\<close>, and that becomes \<^verbatim>\<open>host\<close>.
\<close>

theorem strip_protocol_twice_differs:
  "strip_protocol ''http:x:////host'' = ''http://host'' \<and>
   strip_protocol (strip_protocol ''http:x:////host'') = ''host'' \<and>
   strip_protocol (strip_protocol ''http:x:////host'') \<noteq> strip_protocol ''http:x:////host''"
  by (simp add: strip_protocol_def is_word_def)

text \<open>
  Claim C9, amended: a second application of \<^verbatim>\<open>strip_protocol\<close> changes nothing exactly
  when the result of the first contains no \<^verbatim>\<open>://\<close>; a string without \<^verbatim>\<open>://\<close> is returned
  as it is.
\<close>

theorem strip_protocol_idempotent_iff:
  "(strip_protocol (strip_protocol s) = strip_protocol s
      \<longleftrightarrow> \<not> has_separator (strip_protocol s)) \<and>
   (\<not> has_separator s \<longrightarrow> strip_protocol s = s)"
  unfolding strip_protocol_def
  using sub_empty_fixed [of "sub_empty s"] sub_empty_shrinks [of "sub_empty s"]
    sub_empty_fixed [of s]
  by auto

theorem strip_protocol_idempotent_iff_witness:
  "\<not> has_separator (strip_protocol ''http://www.keil.com/pack/index.idx'') \<and>
   strip_protocol (strip_protocol ''http://www.keil.com/pack/index.idx'') =
     strip_protocol ''http://www.keil.com/pack/index.idx'' \<and>
   \<not> has_separator ''www.keil.com'' \<and> strip_protocol ''www.keil.com'' = ''www.keil.com''"
proof -
  have a: "\<not> has_separator (strip_protocol ''http://www.keil.com/pack/index.idx'')"
    by (simp add: strip_protocol_def is_word_def)
  have b: "\<not> has_separator ''www.keil.com''"
    by simp
  from a b strip_protocol_idempotent_iff [of "''http://www.keil.com/pack/index.idx''"]
    strip_protocol_idempotent_iff [of "''www.keil.com''"]
  show ?thesis by blast
qed


subsection \<open>What \<^verbatim>\<open>_extract_dict\<close> returns\<close>

lemma getitem_raises: "getitem x key = Inl err \<Longrightarrow> err = KeyError \<or> err = TypeError"
  by (cases x) (auto split: option.splits)

lemma memory_entry_raises: "memory_entry m = Inl err \<Longrightarrow> err = KeyError"
  by (auto simp: memory_entry_def split: sum.splits option.splits)

lemma map_raise_raises: "map_raise f xs = Inl err \<Longrightarrow> \<exists>x \<in> set xs. f x = Inl err"
  by (induction xs) (auto split: sum.splits)

lemma extract_handler_getitem: "getitem x key = Inl err \<Longrightarrow> extract_handler err r = Inr r"
  by (auto dest: getitem_raises)

lemma extract_handler_memory:
  "map_raise memory_entry xs = Inl err \<Longrightarrow> extract_handler err r = Inr r"
  by (auto dest!: map_raise_raises memory_entry_raises)

lemma extract_dict_returns: "extract_dict device filename \<noteq> Inl err"
  by (simp add: extract_dict_def Let_def extract_handler_getitem extract_handler_memory
      split: sum.splits)

text \<open>
  Claim C4, as stated: a device element that lacks a required attribute, for example the
  name of the flash algorithm, gives a record with only \<^verbatim>\<open>file\<close>. The assignments are
  made one after the other inside the \<^verbatim>\<open>try\<close>, \<^verbatim>\<open>memory\<close> first: a device with a complete
  memory element and an \<^verbatim>\<open>algorithm\<close> element without \<^verbatim>\<open>name\<close> gives \<^verbatim>\<open>file\<close> and \<^verbatim>\<open>memory\<close>.
\<close>

theorem extract_dict_keeps_memory:
  "getitem (find_first
      (Tag ''device'' [(''dname'', ''LPC1768'')]
        [Tag ''memory'' [(''id'', ''IROM1''), (''start'', ''0x00000000''),
                         (''size'', ''0x80000'')] [],
         Tag ''algorithm'' [(''start'', ''0x00000000'')] []]) ''algorithm'') ''name'' =
     Inl KeyError \<and>
   extract_dict
      (Tag ''device'' [(''dname'', ''LPC1768'')]
        [Tag ''memory'' [(''id'', ''IROM1''), (''start'', ''0x00000000''),
                         (''size'', ''0x80000'')] [],
         Tag ''algorithm'' [(''start'', ''0x00000000'')] []])
      ''http://www.keil.com/pack/Keil.LPC1700_DFP.pdsc'' =
     Inr \<lparr>file' = ''http://www.keil.com/pack/Keil.LPC1700_DFP.pdsc'',
          memory = Some [(''IROM1'', (''0x00000000'', ''0x80000''))],
          algorithm = None, debug = None, compile = None\<rparr>"
  by (simp add: extract_dict_def find_all_def find_first_def memory_entry_def dict_def
      dict_update_def)

text \<open>
  Claim C4, amended: \<^verbatim>\<open>_extract_dict\<close> never raises, and its record always has \<^verbatim>\<open>file\<close>; of
  \<^verbatim>\<open>memory\<close>, \<^verbatim>\<open>algorithm\<close>, \<^verbatim>\<open>debug\<close> and \<^verbatim>\<open>compile\<close> it has, in this order, those assigned
  before the first missing attribute or element. Only \<^verbatim>\<open>file\<close> is left when a memory element
  lacks \<^verbatim>\<open>id\<close>, \<^verbatim>\<open>start\<close> or \<^verbatim>\<open>size\<close>; a missing algorithm name leaves \<^verbatim>\<open>file\<close> and \<^verbatim>\<open>memory\<close>.
\<close>

theorem extract_dict_partial:
  "extract_dict device filename =
     Inr (let mem = (case map_raise memory_entry (find_all device ''memory'') of
                       Inl err \<Rightarrow> None
                     | Inr ms \<Rightarrow> Some (dict ms));
              alg = (case mem of
                       None \<Rightarrow> None
                     | Some _ \<Rightarrow>
                         (case getitem (find_first device ''algorithm'') ''name'' of
                            Inl err \<Rightarrow> None
                          | Inr a \<Rightarrow> Some (replace_backslash a)));
              dbg = (case alg of
                       None \<Rightarrow> None
                     | Some _ \<Rightarrow>
                         (case getitem (find_first device ''debug'') ''svd'' of
                            Inl err \<Rightarrow> None
                          | Inr svd \<Rightarrow> Some svd));
              cmp = (case dbg of
                       None \<Rightarrow> None
                     | Some _ \<Rightarrow>
                         (case getitem (find_first device ''compile'') ''header'' of
                            Inl err \<Rightarrow> None
                          | Inr header \<Rightarrow>
                              (case getitem (find_first device ''compile'') ''define'' of
                                 Inl err \<Rightarrow> None
                               | Inr define \<Rightarrow> Some (header, define))))
          in \<lparr>file' = filename, memory = mem, algorithm = alg, debug = dbg,
              compile = cmp\<rparr>)"
  by (simp add: extract_dict_def Let_def extract_handler_getitem extract_handler_memory
      split: sum.splits)

theorem extract_dict_partial_witness:
  "extract_dict
      (Tag ''device'' [(''dname'', ''LPC1768'')]
        [Tag ''memory'' [(''start'', ''0x00000000''), (''size'', ''0x80000'')] [],
         Tag ''algorithm'' [(''name'', ''Flash/LPC_IAP_512.FLM'')] []])
      ''Keil.LPC1700_DFP.pdsc'' =
     Inr \<lparr>file' = ''Keil.LPC1700_DFP.pdsc'', memory = None, algorithm = None,
          debug = None, compile = None\<rparr> \<and>
   extract_dict
      (Tag ''device'' [(''dname'', ''LPC1768'')]
        [Tag ''memory'' [(''id'', ''IROM1''), (''start'', ''0x00000000''),
                         (''size'', ''0x80000'')] [],
         Tag ''algorithm'' [(''name'', ''Flash/LPC_IAP_512.FLM'')] [],
         Tag ''debug'' [(''svd'', ''SVD/LPC176x5x.svd'')] []])
      ''Keil.LPC1700_DFP.pdsc'' =
     Inr \<lparr>file' = ''Keil.LPC1700_DFP.pdsc'',
          memory = Some [(''IROM1'', (''0x00000000'', ''0x80000''))],
          algorithm = Some ''Flash/LPC_IAP_512.FLM'',
          debug = Some ''SVD/LPC176x5x.svd'', compile = None\<rparr>"
  using
    extract_dict_partial [of
      "Tag ''device'' [(''dname'', ''LPC1768'')]
        [Tag ''memory'' [(''start'', ''0x00000000''), (''size'', ''0x80000'')] [],
         Tag ''algorithm'' [(''name'', ''Flash/LPC_IAP_512.FLM'')] []]"
      "''Keil.LPC1700_DFP.pdsc''"]
    extract_dict_partial [of
      "Tag ''device'' [(''dname'', ''LPC1768'')]
        [Tag ''memory'' [(''id'', ''IROM1''), (''start'', ''0x00000000''),
                         (''size'', ''0x80000'')] [],
         Tag ''algorithm'' [(''name'', ''Flash/LPC_IAP_512.FLM'')] [],
         Tag ''debug'' [(''svd'', ''SVD/LPC176x5x.svd'')] []]"
      "''Keil.LPC1700_DFP.pdsc''"]
  by (simp add: find_all_def find_first_def memory_entry_def dict_def dict_update_def
      replace_backslash_def)


subsection \<open>The example, step by step\<close>

lemmas case_cong_weak =
  sum.case_cong_weak option.case_cong_weak prod.case_cong_weak list.case_cong_weak
  py_error.case_cong_weak

lemma strip_protocol_root:
  "strip_protocol ''http://www.keil.com/pack/index.idx'' = ''www.keil.com/pack/index.idx''"
  by (simp add: strip_protocol_def is_word_def)

lemma strip_protocol_examples:
  "strip_protocol ''http://h/A.pdsc'' = ''h/A.pdsc''"
  "strip_protocol ''http://h/A2.pdsc'' = ''h/A2.pdsc''"
  "strip_protocol ''http://h/B.pdsc'' = ''h/B.pdsc''"
  "strip_protocol ''http://h/C.pdsc'' = ''h/C.pdsc''"
  "strip_protocol ''http://h/D.pdsc'' = ''h/D.pdsc''"
  by (simp_all add: strip_protocol_def is_word_def)

lemmas example_texts =
  example_root_def example_root2_def example_A_def example_A2_def example_C_received_def
  example_D_def

lemma example_parents:
  "parents ''/data/arm-pack-manager/www.keil.com/pack/index.idx'' =
     [''/data'', ''/data/arm-pack-manager'', ''/data/arm-pack-manager/www.keil.com'',
      ''/data/arm-pack-manager/www.keil.com/pack'']"
  "parents ''/data/arm-pack-manager/h/A.pdsc'' =
     [''/data'', ''/data/arm-pack-manager'', ''/data/arm-pack-manager/h'']"
  "parents ''/data/arm-pack-manager/h/A2.pdsc'' =
     [''/data'', ''/data/arm-pack-manager'', ''/data/arm-pack-manager/h'']"
  "parents ''/data/arm-pack-manager/h/B.pdsc'' =
     [''/data'', ''/data/arm-pack-manager'', ''/data/arm-pack-manager/h'']"
  "parents ''/data/arm-pack-manager/h/C.pdsc'' =
     [''/data'', ''/data/arm-pack-manager'', ''/data/arm-pack-manager/h'']"
  by (simp_all add: parents_def)

lemmas example_open_simps =
  open_wb_def example_open_def example_parents no_files_def




lemma example_device_entry_A:
  "device_entry ''http://h/A.pdsc''
     (Tag ''device'' [(''dname'', ''LPC1768'')]
       [Tag ''memory'' [(''id'', ''IROM1''), (''start'', ''0x0''), (''size'', ''0x80000'')] [],
        Tag ''algorithm'' [(''name'', ''Flash/LPC_IAP_512.FLM'')] []]) =
   Inr (''LPC1768'', \<lparr>file' = ''http://h/A.pdsc'',
          memory = Some [(''IROM1'', (''0x0'', ''0x80000''))],
          algorithm = Some ''Flash/LPC_IAP_512.FLM'', debug = None, compile = None\<rparr>)"
  by (simp add: device_entry_def extract_dict_def find_all_def find_first_def memory_entry_def
      dict_def dict_update_def replace_backslash_def)

lemma example_device_entry_C:
  "device_entry ''http://h/C.pdsc''
     (Tag ''device'' [(''dname'', ''LPC1769'')]
       [Tag ''memory'' [(''id'', ''IROM1''), (''start'', ''0x0''), (''size'', ''0x80000'')] []]) =
   Inr (''LPC1769'', \<lparr>file' = ''http://h/C.pdsc'',
          memory = Some [(''IROM1'', (''0x0'', ''0x80000''))],
          algorithm = None, debug = None, compile = None\<rparr>)"
  by (simp add: device_entry_def extract_dict_def find_all_def find_first_def memory_entry_def
      dict_def dict_update_def)

lemma example_generate_index:
  "generate_index example_env example_state_cached = Inr example_state_indexed"
  by (simp add: generate_index_def get_urls_def do_queue_def generate_index_helper_def
      pull_from_cache_def example_env_def example_fifo_def example_soup_def example_texts
      find_all_def example_device_entry_A example_device_entry_C dict_def dict_update_def
      join_def display_counter_def example_state_cached_def example_state_indexed_def
      example_index_def strip_protocol_examples cong: case_cong_weak)


subsection \<open>Where \<^verbatim>\<open>cache_file\<close> writes\<close>

lemma cache_file_Inr:
  assumes "cache_file e url st = Inr st1"
  shows "files st1 = (files st)(join (data_dir e) (strip_protocol url) \<mapsto>
                        fst (curl_perform e (no_timeouts st) url))"
    and "stderr st1 = stderr st @
           (case snd (curl_perform e (no_timeouts st) url) of
              None \<Rightarrow> []
            | Some msg \<Rightarrow> [DownloadError url msg])"
    and "counter st1 = counter st + 1"
    and "no_timeouts st1 = no_timeouts st"
    and "index' st1 = index' st"
    and "urls st1 = urls st"
  using assms
  by (auto simp: cache_file_def Let_def display_counter_def
      split: option.splits prod.splits if_splits)

lemma cache_file_returns:
  "makedirs_passes e url \<Longrightarrow> open_passes e (files st) url \<Longrightarrow>
   \<exists>st1. cache_file e url st = Inr st1"
  by (auto simp: cache_file_def Let_def makedirs_passes_def open_passes_def
      split: option.splits prod.splits)

lemma cache_file_open_raises:
  "makedirs_passes e url \<Longrightarrow>
   open_wb e (files st) (join (data_dir e) (strip_protocol url)) = Some err \<Longrightarrow>
   cache_file e url st = Inl err"
  by (auto simp: cache_file_def Let_def makedirs_passes_def split: option.splits)

lemma open_wb_directory_path:
  "dest = [] \<or> last dest = CHR ''/'' \<Longrightarrow> open_wb e disk dest = Some (IOError dest)"
  by (simp add: open_wb_def)

lemma open_wb_under_file:
  "p \<in> set (parents dest) \<Longrightarrow> disk p = Some c \<Longrightarrow> open_wb e disk dest = Some (IOError dest)"
  by (auto simp: open_wb_def list_ex_iff)

lemma parents_from_length:
  "p \<in> set (parents_from seen s) \<Longrightarrow> length p < length seen + length s"
proof (induction s arbitrary: seen)
  case Nil
  then show ?case by simp
next
  case (Cons c cs)
  show ?case
  proof (cases "p \<in> set (parents_from (seen @ [c]) cs)")
    case True
    from Cons.IH [OF this] show ?thesis by simp
  next
    case False
    with Cons.prems have "p = seen" by (auto split: if_splits)
    then show ?thesis by simp
  qed
qed

lemma not_own_parent: "p \<notin> set (parents p)"
  using parents_from_length [of p "[]" p] by (auto simp: parents_def)

lemma open_wb_other_file:
  "q \<notin> set (parents dest) \<Longrightarrow> open_wb e (disk(q \<mapsto> c)) dest = open_wb e disk dest"
proof -
  assume "q \<notin> set (parents dest)"
  then have "list_ex (\<lambda>p. (disk(q \<mapsto> c)) p \<noteq> None) (parents dest) =
      list_ex (\<lambda>p. disk p \<noteq> None) (parents dest)"
    by (auto simp: list_ex_iff)
  then show ?thesis by (simp add: open_wb_def)
qed

lemma example_directory_path:
  "cache_file example_env ''http://h/'' st = Inl (IOError ''/data/arm-pack-manager/h/'')"
proof -
  have s: "strip_protocol ''http://h/'' = ''h/''"
    by (simp add: strip_protocol_def is_word_def)
  have p: "join (data_dir example_env) (strip_protocol ''http://h/'') =
      ''/data/arm-pack-manager/h/''"
    by (simp add: s example_env_def join_def)
  have m: "makedirs_passes example_env ''http://h/''"
    by (simp add: makedirs_passes_def example_env_def example_makedirs_def)
  from cache_file_open_raises [OF m, of st "IOError ''/data/arm-pack-manager/h/''"]
    open_wb_directory_path [of "''/data/arm-pack-manager/h/''" example_env "files st"]
  show ?thesis unfolding p by simp
qed

lemma example_batch_directory_path:
  "cache_descriptor_list example_env [''http://h/'', ''http://h/B.pdsc''] st =
     Inl (IOError ''/data/arm-pack-manager/h/'')"
proof -
  have "schedule example_env [''http://h/'', ''http://h/B.pdsc''] =
      [''http://h/'', ''http://h/B.pdsc'']"
    by (simp add: example_env_def example_fifo_def)
  then show ?thesis
    by (simp add: cache_descriptor_list_def do_queue_def example_directory_path)
qed

lemma example_under_cached_file:
  "cache_file example_env ''http://h/A.pdsc/x'' example_state_cached =
     Inl (IOError ''/data/arm-pack-manager/h/A.pdsc/x'')"
proof -
  have s: "strip_protocol ''http://h/A.pdsc/x'' = ''h/A.pdsc/x''"
    by (simp add: strip_protocol_def is_word_def)
  have p: "join (data_dir example_env) (strip_protocol ''http://h/A.pdsc/x'') =
      ''/data/arm-pack-manager/h/A.pdsc/x''"
    by (simp add: s example_env_def join_def)
  have m: "makedirs_passes example_env ''http://h/A.pdsc/x''"
    by (simp add: makedirs_passes_def example_env_def example_makedirs_def)
  have a: "''/data/arm-pack-manager/h/A.pdsc'' \<in> set (parents ''/data/arm-pack-manager/h/A.pdsc/x'')"
    by (simp add: parents_def)
  have f: "files example_state_cached ''/data/arm-pack-manager/h/A.pdsc'' = Some example_A"
    by (simp add: example_state_cached_def)
  from a f have "open_wb example_env (files example_state_cached)
      ''/data/arm-pack-manager/h/A.pdsc/x'' = Some (IOError ''/data/arm-pack-manager/h/A.pdsc/x'')"
    by (rule open_wb_under_file)
  with cache_file_open_raises [OF m, of example_state_cached
      "IOError ''/data/arm-pack-manager/h/A.pdsc/x''"]
  show ?thesis unfolding p by simp
qed

lemma join_relative:
  "take 1 b \<noteq> ''/'' \<Longrightarrow> a \<noteq> [] \<Longrightarrow> last a \<noteq> CHR ''/'' \<Longrightarrow> join a b = a @ ''/'' @ b"
  by (simp add: join_def)

lemma join_absolute: "take 1 b = ''/'' \<Longrightarrow> join a b = b"
  by (simp add: join_def)

lemma example_makedirs_passes:
  "makedirs_passes example_env url" "makedirs_passes example_env_later url"
  by (simp_all add: makedirs_passes_def example_env_def example_env_later_def
      example_makedirs_def)

text \<open>
  Claim C1, as stated: for every URL the file is written under the data directory, at the
  data directory followed by the stripped URL. With the data directory
  \<^verbatim>\<open>/data/arm-pack-manager\<close>, the URL \<^verbatim>\<open>file:///etc/passwd\<close> is stripped to \<^verbatim>\<open>/etc/passwd\<close>, which
  is absolute: \<^verbatim>\<open>join\<close> drops the data directory, and \<^verbatim>\<open>cache_file\<close> creates or empties the
  file \<^verbatim>\<open>/etc/passwd\<close>.
\<close>

theorem cache_file_outside_data_dir:
  "data_dir example_env = ''/data/arm-pack-manager'' \<and>
   strip_protocol ''file:///etc/passwd'' = ''/etc/passwd'' \<and>
   join (data_dir example_env) (strip_protocol ''file:///etc/passwd'') = ''/etc/passwd'' \<and>
   on_return files (cache_file example_env ''file:///etc/passwd'' (init True False no_files)) =
     Inr (no_files(''/etc/passwd'' \<mapsto> []))"
proof -
  have s: "strip_protocol ''file:///etc/passwd'' = ''/etc/passwd''"
    by (simp add: strip_protocol_def is_word_def)
  have d: "data_dir example_env = ''/data/arm-pack-manager''"
    by (simp add: example_env_def)
  have q: "parents ''/etc/passwd'' = [''/etc'']"
    by (simp add: parents_def)
  have "on_return files
      (cache_file example_env ''file:///etc/passwd'' (init True False no_files)) =
     Inr (no_files(''/etc/passwd'' \<mapsto> []))"
    by (simp add: on_return_def example_env_def example_perform_def example_makedirs_def
        init_def RootPackURL_def cache_file_def join_def display_counter_def EEXIST_def s q
        open_wb_def example_open_def no_files_def Let_def)
  with s d show ?thesis by (simp add: join_def)
qed

text \<open>
  Claim C1, amended: the path \<^verbatim>\<open>cache_file\<close> writes to is \<^verbatim>\<open>join\<close> of the data directory and
  \<^verbatim>\<open>strip_protocol(url)\<close>, a function of the URL and the data directory alone, whatever the
  state. When \<^verbatim>\<open>makedirs\<close> and \<^verbatim>\<open>open\<close> let it go on, the call returns, the file at that path
  holds what the download wrote and no other file has changed; fetching the same URL again,
  with whatever the server sends then (the surroundings \<open>e2\<close>), replaces the contents of
  the file at the same path, and again no other file changes. A stripped URL that begins
  with a slash is the path itself, wherever the data directory is; for any other stripped
  URL the path is the data directory, a slash and the stripped URL.
\<close>

theorem cache_file_path:
  assumes "makedirs_passes e url" and "open_passes e (files st) url"
    and "makedirs_passes e2 url" and "open_passes e2 (files st) url"
    and "data_dir e2 = data_dir e"
  shows "(\<exists>st1 st2.
     cache_file e url st = Inr st1 \<and>
     files st1 = (files st)(join (data_dir e) (strip_protocol url) \<mapsto>
                    fst (curl_perform e (no_timeouts st) url)) \<and>
     cache_file e2 url st1 = Inr st2 \<and>
     files st2 = (files st)(join (data_dir e) (strip_protocol url) \<mapsto>
                    fst (curl_perform e2 (no_timeouts st) url))) \<and>
   (take 1 (strip_protocol url) = ''/'' \<longrightarrow>
      join (data_dir e) (strip_protocol url) = strip_protocol url) \<and>
   (take 1 (strip_protocol url) \<noteq> ''/'' \<and> data_dir e \<noteq> [] \<and> last (data_dir e) \<noteq> CHR ''/'' \<longrightarrow>
      join (data_dir e) (strip_protocol url) = data_dir e @ ''/'' @ strip_protocol url)"
proof -
  let ?dest = "join (data_dir e) (strip_protocol url)"
  from cache_file_returns [OF assms(1,2)] obtain st1 where 1: "cache_file e url st = Inr st1"
    by blast
  note f1 = cache_file_Inr(1) [OF 1]
  from assms(4,5) have "open_wb e2 (files st) ?dest = None"
    by (simp add: open_passes_def)
  with open_wb_other_file [OF not_own_parent, of e2 "files st" ?dest] f1 assms(5)
  have "open_passes e2 (files st1) url"
    by (simp add: open_passes_def)
  from cache_file_returns [OF assms(3) this] obtain st2
    where 2: "cache_file e2 url st1 = Inr st2"
    by blast
  from f1 cache_file_Inr(1) [OF 2] cache_file_Inr(4) [OF 1] assms(5)
  have "files st2 = (files st)(?dest \<mapsto> fst (curl_perform e2 (no_timeouts st) url))"
    by simp
  with 1 2 f1 join_relative [of "strip_protocol url" "data_dir e"]
    join_absolute [of "strip_protocol url" "data_dir e"]
  show ?thesis by blast
qed

theorem cache_file_path_witness:
  "makedirs_passes example_env RootPackURL \<and>
   open_passes example_env (files (init True False no_files)) RootPackURL \<and>
   makedirs_passes example_env_later RootPackURL \<and>
   open_passes example_env_later (files (init True False no_files)) RootPackURL \<and>
   data_dir example_env_later = data_dir example_env \<and>
   (\<exists>st1 st2.
      cache_file example_env RootPackURL (init True False no_files) = Inr st1 \<and>
      files st1 =
        no_files(''/data/arm-pack-manager/www.keil.com/pack/index.idx'' \<mapsto> example_root) \<and>
      cache_file example_env_later RootPackURL st1 = Inr st2 \<and>
      files st2 =
        no_files(''/data/arm-pack-manager/www.keil.com/pack/index.idx'' \<mapsto> example_root2)) \<and>
   take 1 (strip_protocol RootPackURL) \<noteq> ''/'' \<and>
   join (data_dir example_env) (strip_protocol RootPackURL) =
     data_dir example_env @ ''/'' @ strip_protocol RootPackURL"
proof -
  have d: "data_dir example_env_later = data_dir example_env"
    by (simp add: example_env_later_def)
  have p: "join (data_dir example_env) (strip_protocol RootPackURL) =
      ''/data/arm-pack-manager/www.keil.com/pack/index.idx''"
    by (simp add: example_env_def RootPackURL_def strip_protocol_root join_def)
  have c: "fst (curl_perform example_env (no_timeouts (init True False no_files)) RootPackURL) =
      example_root"
    "fst (curl_perform example_env_later (no_timeouts (init True False no_files)) RootPackURL) =
      example_root2"
    by (simp_all add: example_env_def example_env_later_def example_perform_def
        example_perform_later_def)
  have f: "files (init True False no_files) = no_files"
    by (simp add: init_def)
  have o: "open_passes example_env (files (init True False no_files)) RootPackURL"
    "open_passes example_env_later (files (init True False no_files)) RootPackURL"
    unfolding open_passes_def d p f
    by (simp_all add: example_env_def example_env_later_def example_open_simps)
  have r: "take 1 (strip_protocol RootPackURL) \<noteq> ''/''"
    "data_dir example_env \<noteq> []" "last (data_dir example_env) \<noteq> CHR ''/''"
    by (simp_all add: example_env_def RootPackURL_def strip_protocol_root)
  from cache_file_path [OF example_makedirs_passes(1) o(1) example_makedirs_passes(2) o(2) d]
  have "(\<exists>st1 st2.
      cache_file example_env RootPackURL (init True False no_files) = Inr st1 \<and>
      files st1 =
        no_files(''/data/arm-pack-manager/www.keil.com/pack/index.idx'' \<mapsto> example_root) \<and>
      cache_file example_env_later RootPackURL st1 = Inr st2 \<and>
      files st2 =
        no_files(''/data/arm-pack-manager/www.keil.com/pack/index.idx'' \<mapsto> example_root2)) \<and>
    (take 1 (strip_protocol RootPackURL) \<noteq> ''/'' \<and> data_dir example_env \<noteq> [] \<and>
     last (data_dir example_env) \<noteq> CHR ''/'' \<longrightarrow>
       join (data_dir example_env) (strip_protocol RootPackURL) =
         data_dir example_env @ ''/'' @ strip_protocol RootPackURL)"
    unfolding p c f by blast
  with r example_makedirs_passes o d show ?thesis by blast
qed


subsection \<open>A batch with a failing download\<close>


lemma fold_upd_notin:
  "\<forall>v \<in> set xs. p v \<noteq> q \<Longrightarrow> fold (\<lambda>v f. f(p v \<mapsto> d v)) xs f0 q = f0 q"
  by (induction xs arbitrary: f0) auto









subsection \<open>Reading what was never cached\<close>






subsection \<open>The index property\<close>

lemma generate_index_helper_files:
  "generate_index_helper e d st = Inr st1 \<Longrightarrow>
   files st1 = files st \<and> urls st1 = urls st \<and> no_timeouts st1 = no_timeouts st"
  by (auto simp: generate_index_helper_def display_counter_def
      split: sum.splits py_error.splits)

lemma run_all_generate_index_helper_files:
  "run_all (generate_index_helper e) xs st = Inr st1 \<Longrightarrow>
   files st1 = files st \<and> urls st1 = urls st \<and> no_timeouts st1 = no_timeouts st"
proof (induction xs arbitrary: st)
  case Nil
  then show ?case by simp
next
  case (Cons x xs)
  from Cons.prems obtain st0 where
    1: "generate_index_helper e x st = Inr st0" and
    2: "run_all (generate_index_helper e) xs st0 = Inr st1"
    by (auto split: sum.splits)
  from Cons.IH [OF 2] generate_index_helper_files [OF 1] show ?case by simp
qed

lemma index_json_not_root:
  "join d ''index.json'' \<noteq> join d (strip_protocol RootPackURL)"
  by (simp add: RootPackURL_def strip_protocol_root join_def)

lemma get_urls_fetches_root:
  assumes "get_urls e st = Inr (us, st1)"
    and "urls st = None \<or> urls st = Some []"
    and "files st (join (data_dir e) (strip_protocol RootPackURL)) = None"
  shows "files st1 = (files st)(join (data_dir e) (strip_protocol RootPackURL) \<mapsto>
           fst (curl_perform e (no_timeouts st) RootPackURL))"
proof -
  from assms(3) have p: "pull_from_cache e st RootPackURL =
      Inl (IOError (join (data_dir e) (strip_protocol RootPackURL)))"
    by (simp add: pull_from_cache_def)
  from assms(1,2) p obtain content st0 where
    c: "cache_and_parse e RootPackURL st = Inr (content, st0)" and s: "st1 = st0\<lparr>urls := Some us\<rparr>"
    by (auto simp: get_urls_def split: sum.splits)
  from c obtain 0: "cache_file e RootPackURL st = Inr st0"
    by (auto simp: cache_and_parse_def split: sum.splits)
  from cache_file_Inr(1) [OF 0] s show ?thesis by simp
qed

lemma generate_index_Inr:
  assumes "generate_index e st = Inr st1"
  obtains us st2 st3 where
    "get_urls e (st\<lparr>index' := [], counter := 0\<rparr>) = Inr (us, st2)"
    "run_all (generate_index_helper e) (schedule e us) st2 = Inr st3"
    "st1 = st3\<lparr>files := (files st3)(join (data_dir e) ''index.json'' \<mapsto>
                                      json_dump e (index' st3)),
               stdout := stdout st3 @ [Newline]\<rparr>"
  using assms
  by (auto simp: generate_index_def do_queue_def split: sum.splits)

text \<open>
  Claim C10: reading the property with an empty \<^verbatim>\<open>_index\<close>. Where \<^verbatim>\<open>index.json\<close> is
  missing, the IOError of \<^verbatim>\<open>open\<close> is caught and the value is that of \<^verbatim>\<open>generate_index\<close>
  followed by reading \<^verbatim>\<open>_index\<close>: the property raises only what \<^verbatim>\<open>generate_index\<close> raises,
  and when it returns, the snapshot has been written and the pack index, if it was not
  cached and no URL list was loaded, has been fetched. Where \<^verbatim>\<open>index.json\<close> is there and
  loads, the value is the loaded index.
\<close>

theorem index_without_snapshot:
  assumes "index' st = []"
  shows "(files st (join (data_dir e) ''index.json'') = None \<longrightarrow>
       index e st = (case generate_index e st of
                       Inl err \<Rightarrow> Inl err
                     | Inr st1 \<Rightarrow> Inr (index' st1, st1)) \<and>
       (\<forall>idx st1. index e st = Inr (idx, st1) \<longrightarrow>
          idx = index' st1 \<and>
          files st1 (join (data_dir e) ''index.json'') = Some (json_dump e idx) \<and>
          (files st (join (data_dir e) (strip_protocol RootPackURL)) = None \<and>
           urls st = None \<longrightarrow>
             files st1 (join (data_dir e) (strip_protocol RootPackURL)) =
               Some (fst (curl_perform e (no_timeouts st) RootPackURL))))) \<and>
     (\<forall>i loaded. files st (join (data_dir e) ''index.json'') = Some i \<and>
        json_load e i = Inr loaded \<longrightarrow>
        index e st = Inr (loaded, st\<lparr>index' := loaded\<rparr>))"
proof -
  have a: "index e st = (case generate_index e st of
                       Inl err \<Rightarrow> Inl err
                     | Inr st1 \<Rightarrow> Inr (index' st1, st1))"
    if "files st (join (data_dir e) ''index.json'') = None"
    using that assms by (simp add: index_def)
  have b: "idx = index' st1 \<and>
          files st1 (join (data_dir e) ''index.json'') = Some (json_dump e idx) \<and>
          (files st (join (data_dir e) (strip_protocol RootPackURL)) = None \<and>
           urls st = None \<longrightarrow>
             files st1 (join (data_dir e) (strip_protocol RootPackURL)) =
               Some (fst (curl_perform e (no_timeouts st) RootPackURL)))"
    if n: "files st (join (data_dir e) ''index.json'') = None" and r: "index e st = Inr (idx, st1)"
    for idx st1
  proof -
    from a [OF n] r have g: "generate_index e st = Inr st1" and i: "idx = index' st1"
      by (auto split: sum.splits)
    from g obtain us st2 st3 where
      1: "get_urls e (st\<lparr>index' := [], counter := 0\<rparr>) = Inr (us, st2)" and
      2: "run_all (generate_index_helper e) (schedule e us) st2 = Inr st3" and
      3: "st1 = st3\<lparr>files := (files st3)(join (data_dir e) ''index.json'' \<mapsto>
                                      json_dump e (index' st3)),
               stdout := stdout st3 @ [Newline]\<rparr>"
      by (rule generate_index_Inr)
    from 3 i have f: "files st1 (join (data_dir e) ''index.json'') = Some (json_dump e idx)"
      by simp
    have "files st1 (join (data_dir e) (strip_protocol RootPackURL)) =
               Some (fst (curl_perform e (no_timeouts st) RootPackURL))"
      if "files st (join (data_dir e) (strip_protocol RootPackURL)) = None" "urls st = None"
    proof -
      from get_urls_fetches_root [OF 1] that
      have "files st2 = (files st)(join (data_dir e) (strip_protocol RootPackURL) \<mapsto>
           fst (curl_perform e (no_timeouts st) RootPackURL))" by simp
      with run_all_generate_index_helper_files [OF 2] 3 index_json_not_root [of "data_dir e"]
      show ?thesis by simp
    qed
    with i f show ?thesis by blast
  qed
  have c: "index e st = Inr (loaded, st\<lparr>index' := loaded\<rparr>)"
    if "files st (join (data_dir e) ''index.json'') = Some i" "json_load e i = Inr loaded"
    for i loaded
    using that assms by (simp add: index_def)
  from a b c show ?thesis by blast
qed



lemma example_generate_index_no_root:
  "generate_index example_env example_state_no_root = Inr example_state_regenerated"
proof -
  let ?st = "example_state_no_root\<lparr>index' := [], counter := 0\<rparr>"
  have f: "cache_file example_env RootPackURL ?st =
      Inr (example_state_regenerated\<lparr>counter := 1, index' := [], urls := None,
        files := no_files(''/data/arm-pack-manager/h/A.pdsc'' \<mapsto> example_A,
          ''/data/arm-pack-manager/h/B.pdsc'' \<mapsto> [],
          ''/data/arm-pack-manager/h/C.pdsc'' \<mapsto> example_C_received,
          ''/data/arm-pack-manager/www.keil.com/pack/index.idx'' \<mapsto> example_root),
        stdout := [Progress ''Caching Files'' 1 1]\<rparr>)"
    by (simp add: example_env_def example_perform_def example_makedirs_def init_def
        RootPackURL_def cache_file_def join_def display_counter_def EEXIST_def
        example_state_no_root_def example_state_regenerated_def strip_protocol_root
        example_open_simps cong: case_cong_weak)
  have p: "pull_from_cache example_env ?st RootPackURL =
      Inl (IOError ''/data/arm-pack-manager/www.keil.com/pack/index.idx'')"
    by (simp add: pull_from_cache_def init_def no_files_def example_env_def RootPackURL_def
        strip_protocol_root join_def example_state_no_root_def)
  have g: "get_urls example_env ?st =
      Inr ([''http://h/A.pdsc'', ''http://h/B.pdsc'', ''http://h/C.pdsc''],
        example_state_regenerated\<lparr>counter := 1, index' := [],
        files := no_files(''/data/arm-pack-manager/h/A.pdsc'' \<mapsto> example_A,
          ''/data/arm-pack-manager/h/B.pdsc'' \<mapsto> [],
          ''/data/arm-pack-manager/h/C.pdsc'' \<mapsto> example_C_received,
          ''/data/arm-pack-manager/www.keil.com/pack/index.idx'' \<mapsto> example_root),
        stdout := [Progress ''Caching Files'' 1 1]\<rparr>)"
    unfolding get_urls_def cache_and_parse_def f p
    by (simp add: pull_from_cache_def example_state_no_root_def init_def
        example_state_regenerated_def example_env_def
        RootPackURL_def strip_protocol_root example_soup_def find_all_def get_attr_def join_def
        cong: case_cong_weak)
  show ?thesis
    unfolding generate_index_def Let_def g
    by (simp add: do_queue_def generate_index_helper_def
      pull_from_cache_def example_env_def example_fifo_def example_soup_def example_texts
      find_all_def example_device_entry_A example_device_entry_C dict_def dict_update_def
      join_def display_counter_def example_state_regenerated_def
      example_index_def strip_protocol_examples cong: case_cong_weak)
qed

theorem index_without_snapshot_witness:
  "index' example_state_no_root = [] \<and>
   files example_state_no_root ''/data/arm-pack-manager/index.json'' = None \<and>
   files example_state_no_root ''/data/arm-pack-manager/www.keil.com/pack/index.idx'' = None \<and>
   urls example_state_no_root = None \<and>
   index example_env example_state_no_root = Inr (example_index, example_state_regenerated) \<and>
   files example_state_regenerated ''/data/arm-pack-manager/index.json'' =
     Some (json_dump example_env example_index) \<and>
   files example_state_regenerated ''/data/arm-pack-manager/www.keil.com/pack/index.idx'' =
     Some example_root \<and>
   index' (example_state_indexed\<lparr>index' := []\<rparr>) = [] \<and>
   files (example_state_indexed\<lparr>index' := []\<rparr>) ''/data/arm-pack-manager/index.json'' =
     Some ''LPC1768;LPC1769;'' \<and>
   json_load example_env ''LPC1768;LPC1769;'' = Inr example_index \<and>
   index example_env (example_state_indexed\<lparr>index' := []\<rparr>) =
     Inr (example_index, example_state_indexed)"
proof -
  have p: "join (data_dir example_env) ''index.json'' = ''/data/arm-pack-manager/index.json''"
    "join (data_dir example_env) (strip_protocol RootPackURL) =
      ''/data/arm-pack-manager/www.keil.com/pack/index.idx''"
    by (simp_all add: example_env_def RootPackURL_def strip_protocol_root join_def)
  have a: "index' example_state_no_root = []"
    "files example_state_no_root ''/data/arm-pack-manager/index.json'' = None"
    "files example_state_no_root ''/data/arm-pack-manager/www.keil.com/pack/index.idx'' = None"
    "urls example_state_no_root = None"
    by (simp_all add: example_state_no_root_def init_def no_files_def)
  have b: "index' (example_state_indexed\<lparr>index' := []\<rparr>) = []"
    "files (example_state_indexed\<lparr>index' := []\<rparr>) ''/data/arm-pack-manager/index.json'' =
      Some ''LPC1768;LPC1769;''"
    "json_load example_env ''LPC1768;LPC1769;'' = Inr example_index"
    by (simp_all add: example_state_indexed_def example_env_def example_load_def)
  have c: "example_state_indexed\<lparr>index' := [], index' := example_index\<rparr> = example_state_indexed"
    by (simp add: example_state_indexed_def)
  have d: "fst (curl_perform example_env (no_timeouts example_state_no_root) RootPackURL) =
      example_root"
    by (simp add: example_env_def example_perform_def)
  note w1 = index_without_snapshot [OF a(1), of example_env, unfolded p]
  note w2 = index_without_snapshot [OF b(1), of example_env, unfolded p]
  from w1 a have 1: "index example_env example_state_no_root =
      Inr (example_index, example_state_regenerated)"
    by (simp add: example_generate_index_no_root example_state_regenerated_def)
  with w1 a d have 2: "files example_state_regenerated ''/data/arm-pack-manager/index.json'' =
     Some (json_dump example_env example_index)"
    "files example_state_regenerated ''/data/arm-pack-manager/www.keil.com/pack/index.idx'' =
     Some example_root"
    by auto
  from w2 b c have 3: "index example_env (example_state_indexed\<lparr>index' := []\<rparr>) =
     Inr (example_index, example_state_indexed)"
    by simp
  from a b 1 2 3 show ?thesis by simp
qed

subsection \<open>A device element without a name\<close>

lemma device_entry_raises: "device_entry d dev = Inl err \<Longrightarrow> err = KeyError"
  by (auto simp: device_entry_def extract_dict_returns split: sum.splits option.splits)

lemma device_entry_missing_dname:
  "map_of (attrs dev) ''dname'' = None \<Longrightarrow> device_entry d dev = Inl KeyError"
  by (simp add: device_entry_def)

lemma map_raise_KeyError:
  assumes "\<And>x err. f x = Inl err \<Longrightarrow> err = KeyError" and "x \<in> set xs" and "f x = Inl KeyError"
  shows "map_raise f xs = Inl KeyError"
  using assms(2,3)
proof (induction xs)
  case Nil
  then show ?case by simp
next
  case (Cons y ys)
  show ?case
  proof (cases "f y")
    case (Inl err)
    with assms(1) show ?thesis by auto
  next
    case (Inr v)
    with Cons have "map_raise f ys = Inl KeyError" by auto
    with Inr show ?thesis by simp
  qed
qed

lemma generate_index_helper_missing_dname:
  assumes "files st (join (data_dir e) (strip_protocol d)) = Some fd"
    and "dev \<in> set (find_all (soup e fd) ''device'')"
    and "map_of (attrs dev) ''dname'' = None"
  shows "generate_index_helper e d st = Inl KeyError"
proof -
  from map_raise_KeyError [of "device_entry d", OF device_entry_raises assms(2)
      device_entry_missing_dname [OF assms(3)]]
  have "map_raise (device_entry d) (find_all (soup e fd) ''device'') = Inl KeyError" .
  with assms(1) show ?thesis
    by (simp add: generate_index_helper_def pull_from_cache_def)
qed

text \<open>
  Claim C6: a failure on one cached descriptor is caught and logged, and the build goes on.
  The handler of \<^verbatim>\<open>_generate_index_helper\<close> names AttributeError only. A device element
  without \<^verbatim>\<open>Dname\<close> makes \<^verbatim>\<open>dev['dname']\<close> raise KeyError, which leaves the helper, and
  \<^verbatim>\<open>generate_index\<close> does not complete: on the example with the malformed \<^verbatim>\<open>D.pdsc\<close> the
  well-formed \<^verbatim>\<open>A.pdsc\<close> is never indexed and no snapshot is written.
\<close>

theorem generate_index_aborted_by_missing_dname:
  "generate_index_helper example_env ''http://h/D.pdsc'' example_state_malformed = Inl KeyError \<and>
   generate_index example_env example_state_malformed = Inl KeyError"
proof -
  let ?st = "example_state_malformed\<lparr>index' := [], counter := 0\<rparr>"
  have f: "files example_state_malformed
      (join (data_dir example_env) (strip_protocol ''http://h/D.pdsc'')) = Some example_D"
    "files ?st
      (join (data_dir example_env) (strip_protocol ''http://h/D.pdsc'')) = Some example_D"
    by (simp_all add: example_state_malformed_def example_env_def strip_protocol_examples join_def)
  have d: "Tag ''device'' []
            [Tag ''memory'' [(''id'', ''IROM1''), (''start'', ''0x0''), (''size'', ''0x80000'')] []]
      \<in> set (find_all (soup example_env example_D) ''device'')"
    by (simp add: example_env_def example_soup_def example_texts find_all_def)
  have 1: "generate_index_helper example_env ''http://h/D.pdsc'' example_state_malformed =
      Inl KeyError"
    by (rule generate_index_helper_missing_dname [OF f(1) d]) simp
  have 2: "generate_index_helper example_env ''http://h/D.pdsc'' ?st = Inl KeyError"
    by (rule generate_index_helper_missing_dname [OF f(2) d]) simp
  have g: "get_urls example_env ?st = Inr ([''http://h/D.pdsc'', ''http://h/A.pdsc''], ?st)"
    by (simp add: get_urls_def example_state_malformed_def)
  have "generate_index example_env example_state_malformed = Inl KeyError"
    unfolding generate_index_def Let_def g
    by (simp add: do_queue_def example_env_def example_fifo_def 2 [unfolded example_env_def])
  with 1 show ?thesis by simp
qed



subsection \<open>What \<^verbatim>\<open>find_device\<close> returns\<close>


























subsection \<open>Rebuilding the index\<close>

lemma descriptor_entries_raises:
  "descriptor_entries e disk d = Inl err \<Longrightarrow> err \<noteq> AttributeError"
  by (auto simp: descriptor_entries_def split: option.splits
      dest!: map_raise_raises device_entry_raises)

lemma generate_index_helper_entries:
  "generate_index_helper e d st =
     (case descriptor_entries e (files st) d of
        Inl err \<Rightarrow> Inl err
      | Inr entries \<Rightarrow>
          Inr (display_counter ''Generating Index''
                 (st\<lparr>index' := dict_update (index' st) (dict entries),
                     counter := counter st + 1\<rparr>)))"
proof (cases "descriptor_entries e (files st) d")
  case (Inl err)
  with descriptor_entries_raises [OF Inl] show ?thesis
    by (cases err)
      (auto simp: generate_index_helper_def pull_from_cache_def descriptor_entries_def
        split: option.splits)
next
  case (Inr entries)
  then show ?thesis
    by (auto simp: generate_index_helper_def pull_from_cache_def descriptor_entries_def
        split: option.splits)
qed

lemma run_all_generate_index_helper:
  "on_return (\<lambda>s. (index' s, files s, urls s, no_timeouts s))
     (run_all (generate_index_helper e) xs st) =
   (case map_raise (descriptor_entries e (files st)) xs of
      Inl err \<Rightarrow> Inl err
    | Inr ens \<Rightarrow>
        Inr (fold (\<lambda>entries idx. dict_update idx (dict entries)) ens (index' st),
             files st, urls st, no_timeouts st))"
proof (induction xs arbitrary: st)
  case Nil
  show ?case by (simp add: on_return_def)
next
  case (Cons x xs)
  show ?case
  proof (cases "descriptor_entries e (files st) x")
    case (Inl err)
    then show ?thesis by (simp add: generate_index_helper_entries on_return_def)
  next
    case (Inr entries)
    let ?st0 = "display_counter ''Generating Index''
                 (st\<lparr>index' := dict_update (index' st) (dict entries),
                     counter := counter st + 1\<rparr>)"
    have f: "files ?st0 = files st" "urls ?st0 = urls st" "no_timeouts ?st0 = no_timeouts st"
      "index' ?st0 = dict_update (index' st) (dict entries)"
      by (simp_all add: display_counter_def)
    from Inr have step: "generate_index_helper e x st = Inr ?st0"
      by (simp add: generate_index_helper_entries)
    then have "run_all (generate_index_helper e) (x # xs) st =
        run_all (generate_index_helper e) xs ?st0"
      by simp
    with Cons.IH [of ?st0] Inr show ?thesis
      by (simp only: f map_raise.simps sum.case fold_simps) (simp split: sum.splits)
  qed
qed


lemma pull_from_cache_cong:
  "files st' (join (data_dir e) (strip_protocol u)) = files st (join (data_dir e) (strip_protocol u))
   \<Longrightarrow> pull_from_cache e st' u = pull_from_cache e st u"
  by (simp add: pull_from_cache_def)

lemma cache_file_obs:
  assumes "files st' = files st" and "no_timeouts st' = no_timeouts st"
  shows "(\<exists>err. cache_file e u st' = Inl err \<and> cache_file e u st = Inl err) \<or>
     (\<exists>s' s. cache_file e u st' = Inr s' \<and> cache_file e u st = Inr s \<and>
        files s' = files s \<and> no_timeouts s' = no_timeouts s \<and>
        urls s' = urls st' \<and> urls s = urls st \<and>
        index' s' = index' st' \<and> index' s = index' st)"
  using assms
  by (auto simp: cache_file_def Let_def display_counter_def split: option.splits prod.splits)

lemma get_urls_reload:
  assumes "get_urls e s0 = Inr (us, s2)" and "urls s0 = None \<or> urls s0 = Some []"
  shows "\<exists>root_data. pull_from_cache e s2 RootPackURL = Inr root_data \<and>
     map_raise (\<lambda>pdsc. join_opt (get_attr pdsc ''url'') (get_attr pdsc ''name''))
       (find_all root_data ''pdsc'') = Inr us"
proof -
  let ?f = "\<lambda>pdsc. join_opt (get_attr pdsc ''url'') (get_attr pdsc ''name'')"
  from assms obtain root_data s1 where
    inner: "(case pull_from_cache e s0 RootPackURL of
               Inl (IOError p) \<Rightarrow> cache_and_parse e RootPackURL s0
             | Inl err \<Rightarrow> Inl err
             | Inr content \<Rightarrow> Inr (content, s0)) = Inr (root_data, s1)" and
    m: "map_raise ?f (find_all root_data ''pdsc'') = Inr us" and
    s2: "s2 = s1\<lparr>urls := Some us\<rparr>"
    by (auto simp: get_urls_def split: sum.splits)
  have "pull_from_cache e s1 RootPackURL = Inr root_data"
  proof (cases "pull_from_cache e s0 RootPackURL")
    case (Inr content)
    with inner show ?thesis by simp
  next
    case (Inl err)
    with inner have "cache_and_parse e RootPackURL s0 = Inr (root_data, s1)"
      by (cases err) simp_all
    then show ?thesis
      by (auto simp: cache_and_parse_def split: sum.splits)
  qed
  then have "pull_from_cache e s2 RootPackURL = Inr root_data"
    by (simp add: s2 pull_from_cache_def)
  with m show ?thesis by blast
qed

lemma get_urls_state:
  assumes "get_urls e s0 = Inr (us, s2)"
  shows "urls s2 = Some us" and "index' s2 = index' s0" and "no_timeouts s2 = no_timeouts s0"
proof -
  have "urls s2 = Some us \<and> index' s2 = index' s0 \<and> no_timeouts s2 = no_timeouts s0"
  proof (cases "urls s0 = None \<or> urls s0 = Some []")
    case False
    then obtain u us' where "urls s0 = Some (u # us')"
      by (cases "urls s0") (auto simp: neq_Nil_conv)
    with assms show ?thesis by (simp add: get_urls_def)
  next
    case True
    let ?f = "\<lambda>pdsc. join_opt (get_attr pdsc ''url'') (get_attr pdsc ''name'')"
    from assms True obtain root_data s1 where
      inner: "(case pull_from_cache e s0 RootPackURL of
                 Inl (IOError p) \<Rightarrow> cache_and_parse e RootPackURL s0
               | Inl err \<Rightarrow> Inl err
               | Inr content \<Rightarrow> Inr (content, s0)) = Inr (root_data, s1)" and
      s2: "s2 = s1\<lparr>urls := Some us\<rparr>"
      by (auto simp: get_urls_def split: sum.splits)
    have "index' s1 = index' s0 \<and> no_timeouts s1 = no_timeouts s0"
    proof (cases "pull_from_cache e s0 RootPackURL")
      case (Inr content)
      with inner show ?thesis by simp
    next
      case (Inl err)
      with inner have "cache_and_parse e RootPackURL s0 = Inr (root_data, s1)"
        by (cases err) simp_all
      then have "cache_file e RootPackURL s0 = Inr s1"
        by (auto simp: cache_and_parse_def split: sum.splits)
      from cache_file_Inr(4,5) [OF this] show ?thesis by simp
    qed
    with s2 show ?thesis by simp
  qed
  then show "urls s2 = Some us" and "index' s2 = index' s0"
    and "no_timeouts s2 = no_timeouts s0" by simp_all
qed

lemma get_urls_again:
  assumes "get_urls e s0 = Inr (us, s2)" and "urls s = Some us"
    and "files s (join (data_dir e) (strip_protocol RootPackURL)) =
         files s2 (join (data_dir e) (strip_protocol RootPackURL))"
  shows "get_urls e s = Inr (us, s)"
proof (cases us)
  case (Cons u us')
  with assms(2) show ?thesis by (simp add: get_urls_def)
next
  case Nil
  have "urls s0 = None \<or> urls s0 = Some []"
  proof (rule ccontr)
    assume "\<not> ?thesis"
    then obtain u us' where "urls s0 = Some (u # us')"
      by (cases "urls s0") (auto simp: neq_Nil_conv)
    with assms(1) Nil show False by (simp add: get_urls_def)
  qed
  from get_urls_reload [OF assms(1) this] obtain root_data where
    p: "pull_from_cache e s2 RootPackURL = Inr root_data" and
    m: "map_raise (\<lambda>pdsc. join_opt (get_attr pdsc ''url'') (get_attr pdsc ''name''))
       (find_all root_data ''pdsc'') = Inr us"
    by blast
  from pull_from_cache_cong [OF assms(3)] p
  have "pull_from_cache e s RootPackURL = Inr root_data" by simp
  moreover from assms(2) have "s\<lparr>urls := Some us\<rparr> = s" by simp
  ultimately show ?thesis
    using assms(2) Nil m by (simp add: get_urls_def)
qed


lemma cache_and_parse_obs:
  assumes "files st' = files st" and "no_timeouts st' = no_timeouts st"
  shows "(\<exists>err. cache_and_parse e u st' = Inl err \<and> cache_and_parse e u st = Inl err) \<or>
     (\<exists>c s' s. cache_and_parse e u st' = Inr (c, s') \<and> cache_and_parse e u st = Inr (c, s) \<and>
        files s' = files s)"
proof -
  from cache_file_obs [OF assms, of e u] consider
    (raises) err where "cache_file e u st' = Inl err" "cache_file e u st = Inl err" |
    (returns) s' s where "cache_file e u st' = Inr s'" "cache_file e u st = Inr s"
      "files s' = files s"
    by blast
  then show ?thesis
  proof cases
    case raises
    then show ?thesis by (simp add: cache_and_parse_def)
  next
    case returns
    then have "pull_from_cache e s' u = pull_from_cache e s u"
      by (simp add: pull_from_cache_def)
    with returns show ?thesis
      by (cases "pull_from_cache e s u") (simp_all add: cache_and_parse_def)
  qed
qed

lemma get_urls_obs:
  assumes "files st' = files st" and "urls st' = urls st" and "no_timeouts st' = no_timeouts st"
  shows "(\<exists>err. get_urls e st' = Inl err \<and> get_urls e st = Inl err) \<or>
     (\<exists>us s' s. get_urls e st' = Inr (us, s') \<and> get_urls e st = Inr (us, s) \<and>
        files s' = files s)"
proof (cases "urls st = None \<or> urls st = Some []")
  case False
  then obtain u us' where "urls st = Some (u # us')"
    by (cases "urls st") (auto simp: neq_Nil_conv)
  with assms show ?thesis by (simp add: get_urls_def)
next
  case True
  let ?inner = "\<lambda>s. case pull_from_cache e s RootPackURL of
                   Inl (IOError p) \<Rightarrow> cache_and_parse e RootPackURL s
                 | Inl err \<Rightarrow> Inl err
                 | Inr content \<Rightarrow> Inr (content, s)"
  have p: "pull_from_cache e st' RootPackURL = pull_from_cache e st RootPackURL"
    using assms(1) by (simp add: pull_from_cache_def)
  have inner: "(\<exists>err. ?inner st' = Inl err \<and> ?inner st = Inl err) \<or>
     (\<exists>c s' s. ?inner st' = Inr (c, s') \<and> ?inner st = Inr (c, s) \<and> files s' = files s)"
  proof (cases "pull_from_cache e st RootPackURL")
    case (Inr content)
    with p assms(1) show ?thesis by simp
  next
    case (Inl err)
    with p cache_and_parse_obs [OF assms(1,3), of e RootPackURL] show ?thesis
      by (cases err) simp_all
  qed
  have g: "get_urls e s =
      (case ?inner s of
         Inl err \<Rightarrow> Inl err
       | Inr (root_data, s1) \<Rightarrow>
           (case map_raise (\<lambda>pdsc. join_opt (get_attr pdsc ''url'') (get_attr pdsc ''name''))
                   (find_all root_data ''pdsc'') of
              Inl err \<Rightarrow> Inl err
            | Inr new_urls \<Rightarrow> Inr (new_urls, s1\<lparr>urls := Some new_urls\<rparr>)))"
    if "urls s = None \<or> urls s = Some []" for s
    using that by (auto simp: get_urls_def)
  from True assms(2) have t: "urls st' = None \<or> urls st' = Some []" by simp
  from inner show ?thesis
  proof (elim disjE exE conjE)
    fix err
    assume "?inner st' = Inl err" "?inner st = Inl err"
    then show ?thesis by (simp add: g [OF True] g [OF t])
  next
    fix c s' s
    assume "?inner st' = Inr (c, s')" "?inner st = Inr (c, s)" "files s' = files s"
    then show ?thesis
      by (cases "map_raise (\<lambda>pdsc. join_opt (get_attr pdsc ''url'') (get_attr pdsc ''name''))
                   (find_all c ''pdsc'')") (simp_all add: g [OF True] g [OF t])
  qed
qed

lemma generate_index_obs:
  "on_return index_and_files (generate_index e st) =
     (case get_urls e (st\<lparr>index' := [], counter := 0\<rparr>) of
        Inl err \<Rightarrow> Inl err
      | Inr (us, st2) \<Rightarrow>
          (case map_raise (descriptor_entries e (files st2)) (schedule e us) of
             Inl err \<Rightarrow> Inl err
           | Inr ens \<Rightarrow>
               Inr (fold (\<lambda>entries idx. dict_update idx (dict entries)) ens [],
                    (files st2)(join (data_dir e) ''index.json'' \<mapsto>
                       json_dump e (fold (\<lambda>entries idx. dict_update idx (dict entries)) ens [])))))"
proof (cases "get_urls e (st\<lparr>index' := [], counter := 0\<rparr>)")
  case (Inl err)
  then show ?thesis by (simp add: generate_index_def on_return_def)
next
  case (Inr r)
  obtain us st2 where r: "r = (us, st2)" by (cases r)
  from get_urls_state(2) [OF Inr [unfolded r]] have i: "index' st2 = []" by simp
  note h = run_all_generate_index_helper [of e "schedule e us" st2, unfolded i]
  show ?thesis
  proof (cases "run_all (generate_index_helper e) (schedule e us) st2")
    case (Inl err)
    with h Inr r show ?thesis
      by (auto simp: generate_index_def do_queue_def on_return_def split: sum.splits)
  next
    case st3: (Inr st3)
    with h Inr r show ?thesis
      by (auto simp: generate_index_def do_queue_def on_return_def index_and_files_def
          split: sum.splits)
  qed
qed



lemma map_raise_cong:
  "(\<And>x. x \<in> set xs \<Longrightarrow> f x = g x) \<Longrightarrow> map_raise f xs = map_raise g xs"
  by (induction xs) (auto split: sum.splits)

lemma descriptor_entries_other_file:
  "join (data_dir e) (strip_protocol d) \<noteq> path \<Longrightarrow>
   descriptor_entries e (disk(path \<mapsto> fd)) d = descriptor_entries e disk d"
  by (simp add: descriptor_entries_def)

lemma map_of_dict_update:
  "map_of (dict_update d kvs) = map_of d ++ map_of (rev kvs)"
  unfolding dict_update_def
proof (induction kvs arbitrary: d)
  case Nil
  show ?case by simp
next
  case (Cons kv kvs)
  obtain k v where kv: "kv = (k, v)" by (cases kv)
  have "map_of (fold (\<lambda>(k, v). AList.update k v) kvs (AList.update k v d)) =
      map_of (AList.update k v d) ++ map_of (rev kvs)"
    by (rule Cons.IH)
  also have "\<dots> = (map_of d ++ [k \<mapsto> v]) ++ map_of (rev kvs)"
    by (simp add: update_conv')
  also have "\<dots> = map_of d ++ map_of (rev (kv # kvs))"
    by (simp add: kv map_of_append)
  finally show ?case by (simp add: kv)
qed

lemma distinct_dict_update:
  "distinct (map fst d) \<Longrightarrow> distinct (map fst (dict_update d kvs))"
  unfolding dict_update_def
  by (induction kvs arbitrary: d) (auto simp: distinct_update)

lemma map_of_rev_distinct: "distinct (map fst xs) \<Longrightarrow> map_of (rev xs) = map_of xs"
  by (simp add: map_of_inject_set rev_map [symmetric])

lemma map_of_index_update:
  "map_of (dict_update idx (dict entries)) = map_of idx ++ map_of (rev entries)"
proof -
  have "distinct (map fst (dict entries))"
    unfolding dict_def by (rule distinct_dict_update) simp
  then have "map_of (rev (dict entries)) = map_of (dict entries)"
    by (rule map_of_rev_distinct)
  also have "\<dots> = map_of (rev entries)"
    by (simp add: dict_def map_of_dict_update)
  finally show ?thesis by (simp add: map_of_dict_update)
qed

lemma fold_entries_maps:
  assumes "map_raise D xs = Inr ens"
  shows "map_of (fold (\<lambda>entries idx. dict_update idx (dict entries)) ens idx) =
     fold (\<lambda>x m. m ++ (case D x of Inl err \<Rightarrow> Map.empty | Inr en \<Rightarrow> map_of (rev en))) xs
       (map_of idx)"
  using assms
proof (induction xs arbitrary: ens idx)
  case Nil
  then show ?case by simp
next
  case (Cons x xs)
  from Cons.prems obtain en ens' where
    x: "D x = Inr en" and r: "map_raise D xs = Inr ens'" and e: "ens = en # ens'"
    by (auto split: sum.splits)
  from Cons.IH [OF r, of "dict_update idx (dict en)"] show ?case
    by (simp add: e x map_of_index_update)
qed

lemma fold_maps_order_free:
  fixes M :: "'a \<Rightarrow> ('k \<rightharpoonup> 'v)"
  assumes "mset xs = mset ys"
    and "\<forall>u \<in> set xs. \<forall>v \<in> set xs. u \<noteq> v \<longrightarrow> dom (M u) \<inter> dom (M v) = {}"
  shows "fold (\<lambda>x m. m ++ M x) xs m0 = fold (\<lambda>x m. m ++ M x) ys m0"
proof -
  have "fold (\<lambda>x m. m ++ M x) xs = fold (\<lambda>x m. m ++ M x) ys"
  proof (rule fold_multiset_equiv [OF _ assms(1)])
    fix x y
    assume "x \<in> set xs" "y \<in> set xs"
    show "(\<lambda>m. m ++ M x) \<circ> (\<lambda>m. m ++ M y) = (\<lambda>m. m ++ M y) \<circ> (\<lambda>m. m ++ M x)"
    proof (cases "x = y")
      case True
      then show ?thesis by simp
    next
      case False
      with assms(2) \<open>x \<in> set xs\<close> \<open>y \<in> set xs\<close> have "dom (M x) \<inter> dom (M y) = {}" by blast
      then have c: "M y ++ M x = M x ++ M y" by (simp add: map_add_comm Int_commute)
      have "(m ++ M y) ++ M x = (m ++ M x) ++ M y" for m
        by (simp only: map_add_assoc [symmetric] c)
      then show ?thesis by (simp add: fun_eq_iff)
    qed
  qed
  then show ?thesis by simp
qed


lemma run_all_generate_index_helper_returns:
  assumes "map_raise (descriptor_entries e (files st)) xs = Inr ens"
  shows "\<exists>s1. run_all (generate_index_helper e) xs st = Inr s1 \<and>
     index' s1 = fold (\<lambda>entries idx. dict_update idx (dict entries)) ens (index' st)"
  using run_all_generate_index_helper [of e xs st] assms
  by (cases "run_all (generate_index_helper e) xs st") (simp_all add: on_return_def)

lemma run_all_generate_index_helper_entries:
  assumes "run_all (generate_index_helper e) xs st = Inr s1"
  shows "\<exists>ens. map_raise (descriptor_entries e (files st)) xs = Inr ens \<and>
     index' s1 = fold (\<lambda>entries idx. dict_update idx (dict entries)) ens (index' st)"
  using run_all_generate_index_helper [of e xs st] assms
  by (cases "map_raise (descriptor_entries e (files st)) xs") (simp_all add: on_return_def)

lemma run_all_generate_index_helper_order_free:
  assumes "mset xs = mset ys"
    and "run_all (generate_index_helper e) xs st = Inr s1"
    and "run_all (generate_index_helper e) ys st = Inr s2"
    and "\<forall>u \<in> set xs. \<forall>v \<in> set xs. u \<noteq> v \<longrightarrow>
           descriptor_names e (files st) u \<inter> descriptor_names e (files st) v = {}"
  shows "map_of (index' s1) = map_of (index' s2)"
proof -
  let ?D = "descriptor_entries e (files st)"
  let ?M = "\<lambda>x. case ?D x of Inl err \<Rightarrow> Map.empty | Inr en \<Rightarrow> map_of (rev en)"
  from run_all_generate_index_helper_entries [OF assms(2)] obtain ens1 where
    1: "map_raise ?D xs = Inr ens1"
      "index' s1 = fold (\<lambda>entries idx. dict_update idx (dict entries)) ens1 (index' st)"
    by blast
  from run_all_generate_index_helper_entries [OF assms(3)] obtain ens2 where
    2: "map_raise ?D ys = Inr ens2"
      "index' s2 = fold (\<lambda>entries idx. dict_update idx (dict entries)) ens2 (index' st)"
    by blast
  have d: "dom (?M x) = descriptor_names e (files st) x" for x
    by (cases "?D x") (simp_all add: descriptor_names_def dom_map_of_conv_image_fst)
  from assms(4) have "\<forall>u \<in> set xs. \<forall>v \<in> set xs. u \<noteq> v \<longrightarrow> dom (?M u) \<inter> dom (?M v) = {}"
    by (simp only: d)
  from fold_maps_order_free [OF assms(1) this, of "map_of (index' st)"]
    fold_entries_maps [OF 1(1), of "index' st"] fold_entries_maps [OF 2(1), of "index' st"]
  show ?thesis by (simp only: 1(2) 2(2))
qed


lemma example_cached_entries:
  "descriptor_entries example_env (files example_state_cached) ''http://h/A.pdsc'' =
     Inr [(''LPC1768'', \<lparr>file' = ''http://h/A.pdsc'',
          memory = Some [(''IROM1'', (''0x0'', ''0x80000''))],
          algorithm = Some ''Flash/LPC_IAP_512.FLM'', debug = None, compile = None\<rparr>)]"
  "descriptor_entries example_env (files example_state_cached) ''http://h/B.pdsc'' = Inr []"
  "descriptor_entries example_env (files example_state_cached) ''http://h/C.pdsc'' =
     Inr [(''LPC1769'', \<lparr>file' = ''http://h/C.pdsc'',
          memory = Some [(''IROM1'', (''0x0'', ''0x80000''))],
          algorithm = None, debug = None, compile = None\<rparr>)]"
  by (simp_all add: descriptor_entries_def example_state_cached_def
      example_env_def strip_protocol_examples join_def
      example_soup_def example_texts find_all_def example_device_entry_A
      example_device_entry_C)

text \<open>
  Claim C5, amended: for a given order in which the calls of the worker threads land,
  \<^verbatim>\<open>generate_index\<close> is a function of the cached files, the URL list held in memory and the
  timeout flag: started from two states that agree on these, whatever index, counter and
  output they hold, it raises the same exception or leaves the same index and the same
  files. Run again on the state it returned, it leaves that index and those files as they
  are, when no descriptor URL has \<^verbatim>\<open>index.json\<close> as its cache path. The order in which
  the calls land has no influence on the contents of the index when no two different URLs
  describe a device of the same name.
\<close>

theorem generate_index_rebuilds:
  "(files st' = files st \<and> urls st' = urls st \<and> no_timeouts st' = no_timeouts st \<longrightarrow>
      on_return index_and_files (generate_index e st') =
      on_return index_and_files (generate_index e st)) \<and>
   (\<forall>st1 us. generate_index e st = Inr st1 \<and> urls st1 = Some us \<and>
        (\<forall>u \<in> set (schedule e us).
           join (data_dir e) (strip_protocol u) \<noteq> join (data_dir e) ''index.json'') \<longrightarrow>
      on_return index_and_files (generate_index e st1) = Inr (index' st1, files st1)) \<and>
   (\<forall>e2 items s1 s2.
        mset (schedule e items) = mset items \<and> mset (schedule e2 items) = mset items \<and>
        do_queue e (generate_index_helper e) items st = Inr s1 \<and>
        do_queue e2 (generate_index_helper e) items st = Inr s2 \<and>
        (\<forall>u \<in> set items. \<forall>v \<in> set items. u \<noteq> v \<longrightarrow>
           descriptor_names e (files st) u \<inter> descriptor_names e (files st) v = {}) \<longrightarrow>
      map_of (index' s1) = map_of (index' s2))"
proof -
  let ?build = "fold (\<lambda>entries idx. dict_update idx (dict entries))"
  let ?P = "join (data_dir e) ''index.json''"
  have a: "on_return index_and_files (generate_index e st') =
      on_return index_and_files (generate_index e st)"
    if "files st' = files st" "urls st' = urls st" "no_timeouts st' = no_timeouts st"
  proof -
    from that get_urls_obs [of "st'\<lparr>index' := [], counter := 0\<rparr>"
        "st\<lparr>index' := [], counter := 0\<rparr>" e]
    consider (raises) err where "get_urls e (st'\<lparr>index' := [], counter := 0\<rparr>) = Inl err"
        "get_urls e (st\<lparr>index' := [], counter := 0\<rparr>) = Inl err" |
      (returns) us s' s where "get_urls e (st'\<lparr>index' := [], counter := 0\<rparr>) = Inr (us, s')"
        "get_urls e (st\<lparr>index' := [], counter := 0\<rparr>) = Inr (us, s)" "files s' = files s"
      by auto
    then show ?thesis
      by cases (simp_all add: generate_index_obs cong: sum.case_cong)
  qed
  have b: "on_return index_and_files (generate_index e st1) = Inr (index' st1, files st1)"
    if g: "generate_index e st = Inr st1" and u: "urls st1 = Some us" and
      n: "\<forall>u \<in> set (schedule e us). join (data_dir e) (strip_protocol u) \<noteq> ?P"
    for st1 us
  proof -
    from g obtain us0 st2 st3 where
      1: "get_urls e (st\<lparr>index' := [], counter := 0\<rparr>) = Inr (us0, st2)" and
      2: "run_all (generate_index_helper e) (schedule e us0) st2 = Inr st3" and
      3: "st1 = st3\<lparr>files := (files st3)(?P \<mapsto> json_dump e (index' st3)),
               stdout := stdout st3 @ [Newline]\<rparr>"
      by (rule generate_index_Inr)
    from run_all_generate_index_helper_files [OF 2]
    have f3: "files st3 = files st2" "urls st3 = urls st2" by simp_all
    from get_urls_state [OF 1] have u2: "urls st2 = Some us0" and i2: "index' st2 = []"
      by simp_all
    from 3 f3 u2 u have us: "us0 = us" by simp
    from run_all_generate_index_helper [of e "schedule e us" st2] 2 us i2
    obtain ens where
      m: "map_raise (descriptor_entries e (files st2)) (schedule e us) = Inr ens" and
      i3: "index' st3 = ?build ens []"
      by (auto simp: on_return_def split: sum.splits)
    from 3 f3 have f1: "files st1 = (files st2)(?P \<mapsto> json_dump e (index' st3))"
      and i1: "index' st1 = index' st3" by simp_all
    let ?s = "st1\<lparr>index' := [], counter := 0\<rparr>"
    have "files ?s (join (data_dir e) (strip_protocol RootPackURL)) =
        files st2 (join (data_dir e) (strip_protocol RootPackURL))"
      using index_json_not_root [of "data_dir e"] by (simp add: f1)
    with get_urls_again [OF 1 [unfolded us], of ?s] u
    have g2: "get_urls e ?s = Inr (us, ?s)" by simp
    have "map_raise (descriptor_entries e (files st1)) (schedule e us) =
        map_raise (descriptor_entries e (files st2)) (schedule e us)"
      by (rule map_raise_cong) (use n in \<open>simp add: f1 descriptor_entries_other_file\<close>)
    with m have m1: "map_raise (descriptor_entries e (files st1)) (schedule e us) = Inr ens"
      by simp
    have fs: "files ?s = files st1" by simp
    have "on_return index_and_files (generate_index e st1) =
        Inr (?build ens [], (files st1)(?P \<mapsto> json_dump e (?build ens [])))"
      by (simp only: generate_index_obs g2 sum.case prod.case fs m1)
    also have "\<dots> = Inr (index' st1, files st1)"
      by (simp add: i1 i3 f1)
    finally show ?thesis .
  qed
  have c: "map_of (index' s1) = map_of (index' s2)"
    if m: "mset (schedule e items) = mset items" "mset (schedule e2 items) = mset items" and
      r: "do_queue e (generate_index_helper e) items st = Inr s1"
         "do_queue e2 (generate_index_helper e) items st = Inr s2" and
      n: "\<forall>u \<in> set items. \<forall>v \<in> set items. u \<noteq> v \<longrightarrow>
           descriptor_names e (files st) u \<inter> descriptor_names e (files st) v = {}"
    for e2 items s1 s2
  proof -
    from m have "mset (schedule e items) = mset (schedule e2 items)" by simp
    moreover from m(1) have "set (schedule e items) = set items" by (rule mset_eq_setD)
    with n have "\<forall>u \<in> set (schedule e items). \<forall>v \<in> set (schedule e items). u \<noteq> v \<longrightarrow>
           descriptor_names e (files st) u \<inter> descriptor_names e (files st) v = {}"
      by simp
    ultimately show ?thesis
      using r run_all_generate_index_helper_order_free
        [of "schedule e items" "schedule e2 items" e st s1 s2]
      by (simp add: do_queue_def)
  qed
  from a b c show ?thesis by blast
qed


lemma on_return_index':
  "on_return index' r = on_return fst (on_return index_and_files r)"
  by (cases r) (simp_all add: on_return_def index_and_files_def)

lemma example_device_entry_A2:
  "device_entry ''http://h/A2.pdsc''
     (Tag ''device'' [(''dname'', ''LPC1768'')]
       [Tag ''memory'' [(''id'', ''IROM1''), (''start'', ''0x0''), (''size'', ''0x40000'')] []]) =
   Inr (''LPC1768'', \<lparr>file' = ''http://h/A2.pdsc'',
          memory = Some [(''IROM1'', (''0x0'', ''0x40000''))],
          algorithm = None, debug = None, compile = None\<rparr>)"
  by (simp add: device_entry_def extract_dict_def find_all_def find_first_def memory_entry_def
      dict_def dict_update_def)

lemma example_collision_get_urls:
  "get_urls example_env (example_state_collision\<lparr>index' := [], counter := 0\<rparr>) =
     Inr ([''http://h/A.pdsc'', ''http://h/A2.pdsc''],
          example_state_collision\<lparr>index' := [], counter := 0,
            urls := Some [''http://h/A.pdsc'', ''http://h/A2.pdsc'']\<rparr>)"
  "get_urls example_env_reversed (example_state_collision\<lparr>index' := [], counter := 0\<rparr>) =
     Inr ([''http://h/A.pdsc'', ''http://h/A2.pdsc''],
          example_state_collision\<lparr>index' := [], counter := 0,
            urls := Some [''http://h/A.pdsc'', ''http://h/A2.pdsc'']\<rparr>)"
  by (simp_all add: get_urls_def pull_from_cache_def example_state_collision_def init_def
      example_env_def example_env_reversed_def RootPackURL_def strip_protocol_root
      example_soup_def example_texts find_all_def get_attr_def join_def cong: case_cong_weak)

lemma example_collision_entries:
  "descriptor_entries example_env (files example_state_collision) ''http://h/A.pdsc'' =
     Inr [(''LPC1768'', \<lparr>file' = ''http://h/A.pdsc'',
          memory = Some [(''IROM1'', (''0x0'', ''0x80000''))],
          algorithm = Some ''Flash/LPC_IAP_512.FLM'', debug = None, compile = None\<rparr>)]"
  "descriptor_entries example_env (files example_state_collision) ''http://h/A2.pdsc'' =
     Inr [(''LPC1768'', \<lparr>file' = ''http://h/A2.pdsc'',
          memory = Some [(''IROM1'', (''0x0'', ''0x40000''))],
          algorithm = None, debug = None, compile = None\<rparr>)]"
  "descriptor_entries example_env_reversed (files example_state_collision) ''http://h/A.pdsc'' =
     Inr [(''LPC1768'', \<lparr>file' = ''http://h/A.pdsc'',
          memory = Some [(''IROM1'', (''0x0'', ''0x80000''))],
          algorithm = Some ''Flash/LPC_IAP_512.FLM'', debug = None, compile = None\<rparr>)]"
  "descriptor_entries example_env_reversed (files example_state_collision) ''http://h/A2.pdsc'' =
     Inr [(''LPC1768'', \<lparr>file' = ''http://h/A2.pdsc'',
          memory = Some [(''IROM1'', (''0x0'', ''0x40000''))],
          algorithm = None, debug = None, compile = None\<rparr>)]"
  by (simp_all add: descriptor_entries_def example_state_collision_def init_def
      example_env_def example_env_reversed_def strip_protocol_examples join_def
      example_soup_def example_texts find_all_def example_device_entry_A
      example_device_entry_A2)

text \<open>
  Claim C5, as stated: the index is a function of the cached files, two rebuilds on the same
  files giving the same index. The helper calls run on twenty threads and each one updates
  the shared dictionary; where two descriptors describe the same device, the update that
  lands last stays. On the same disk, with \<^verbatim>\<open>A.pdsc\<close> and \<^verbatim>\<open>A2.pdsc\<close> both describing LPC1768,
  the index holds the record of \<^verbatim>\<open>A2.pdsc\<close> when the calls land in queue order and that of
  \<^verbatim>\<open>A.pdsc\<close> when they land in the opposite order.
\<close>

theorem generate_index_depends_on_order:
  "on_return index' (generate_index example_env example_state_collision) =
     Inr [(''LPC1768'', \<lparr>file' = ''http://h/A2.pdsc'',
            memory = Some [(''IROM1'', (''0x0'', ''0x40000''))],
            algorithm = None, debug = None, compile = None\<rparr>)] \<and>
   on_return index' (generate_index example_env_reversed example_state_collision) =
     Inr [(''LPC1768'', \<lparr>file' = ''http://h/A.pdsc'',
            memory = Some [(''IROM1'', (''0x0'', ''0x80000''))],
            algorithm = Some ''Flash/LPC_IAP_512.FLM'', debug = None, compile = None\<rparr>)]"
proof -
  have f: "files (example_state_collision\<lparr>index' := [], counter := 0,
            urls := Some [''http://h/A.pdsc'', ''http://h/A2.pdsc'']\<rparr>) =
      files example_state_collision"
    by simp
  have s: "schedule example_env [''http://h/A.pdsc'', ''http://h/A2.pdsc''] =
      [''http://h/A.pdsc'', ''http://h/A2.pdsc'']"
    "schedule example_env_reversed [''http://h/A.pdsc'', ''http://h/A2.pdsc''] =
      [''http://h/A2.pdsc'', ''http://h/A.pdsc'']"
    by (simp_all add: example_env_def example_env_reversed_def example_fifo_def)
  show ?thesis
    unfolding on_return_index' generate_index_obs example_collision_get_urls
    by (simp add: f s example_collision_entries on_return_def dict_def dict_update_def)
qed

theorem generate_index_rebuilds_witness:
  "files example_state_stale = files example_state_cached \<and>
   urls example_state_stale = urls example_state_cached \<and>
   no_timeouts example_state_stale = no_timeouts example_state_cached \<and>
   index' example_state_stale = example_index3 \<and>
   on_return index_and_files (generate_index example_env example_state_stale) =
     Inr (example_index, files example_state_indexed) \<and>
   generate_index example_env example_state_cached = Inr example_state_indexed \<and>
   urls example_state_indexed =
     Some [''http://h/A.pdsc'', ''http://h/B.pdsc'', ''http://h/C.pdsc''] \<and>
   on_return index_and_files (generate_index example_env example_state_indexed) =
     Inr (example_index, files example_state_indexed) \<and>
   mset (schedule example_env [''http://h/A.pdsc'', ''http://h/B.pdsc'', ''http://h/C.pdsc'']) =
     mset [''http://h/A.pdsc'', ''http://h/B.pdsc'', ''http://h/C.pdsc''] \<and>
   mset (schedule example_env_reversed
           [''http://h/A.pdsc'', ''http://h/B.pdsc'', ''http://h/C.pdsc'']) =
     mset [''http://h/A.pdsc'', ''http://h/B.pdsc'', ''http://h/C.pdsc''] \<and>
   descriptor_names example_env (files example_state_cached) ''http://h/A.pdsc'' =
     {''LPC1768''} \<and>
   descriptor_names example_env (files example_state_cached) ''http://h/B.pdsc'' = {} \<and>
   descriptor_names example_env (files example_state_cached) ''http://h/C.pdsc'' =
     {''LPC1769''} \<and>
   (\<exists>s1 s2.
      do_queue example_env (generate_index_helper example_env)
        [''http://h/A.pdsc'', ''http://h/B.pdsc'', ''http://h/C.pdsc''] example_state_cached =
        Inr s1 \<and>
      do_queue example_env_reversed (generate_index_helper example_env)
        [''http://h/A.pdsc'', ''http://h/B.pdsc'', ''http://h/C.pdsc''] example_state_cached =
        Inr s2 \<and>
      index' s1 = example_index \<and> index' s2 = rev example_index \<and>
      map_of (index' s1) = map_of (index' s2))"
proof -
  have a: "files example_state_stale = files example_state_cached"
    "urls example_state_stale = urls example_state_cached"
    "no_timeouts example_state_stale = no_timeouts example_state_cached"
    "index' example_state_stale = example_index3"
    by (simp_all add: example_state_stale_def)
  have u: "urls example_state_indexed =
     Some [''http://h/A.pdsc'', ''http://h/B.pdsc'', ''http://h/C.pdsc'']"
    by (simp add: example_state_indexed_def)
  have n: "\<forall>u \<in> set (schedule example_env
        [''http://h/A.pdsc'', ''http://h/B.pdsc'', ''http://h/C.pdsc'']).
      join (data_dir example_env) (strip_protocol u) \<noteq>
      join (data_dir example_env) ''index.json''"
    by (simp add: example_env_def example_fifo_def strip_protocol_examples join_def)
  have i: "index' example_state_indexed = example_index"
    by (simp add: example_state_indexed_def)
  note w = generate_index_rebuilds [of example_state_stale example_state_cached example_env]
  from w a have 1: "on_return index_and_files (generate_index example_env example_state_stale) =
      Inr (example_index, files example_state_indexed)"
    by (simp add: example_generate_index on_return_def index_and_files_def i)
  from w example_generate_index u n
  have 2: "on_return index_and_files (generate_index example_env example_state_indexed) =
      Inr (index' example_state_indexed, files example_state_indexed)"
    by blast
  let ?L = "[''http://h/A.pdsc'', ''http://h/B.pdsc'', ''http://h/C.pdsc'']"
  have sch: "schedule example_env ?L = ?L" "schedule example_env_reversed ?L = rev ?L"
    by (simp_all add: example_env_def example_env_reversed_def example_fifo_def)
  have nm: "descriptor_names example_env (files example_state_cached) ''http://h/A.pdsc'' =
     {''LPC1768''}"
    "descriptor_names example_env (files example_state_cached) ''http://h/B.pdsc'' = {}"
    "descriptor_names example_env (files example_state_cached) ''http://h/C.pdsc'' =
     {''LPC1769''}"
    by (simp_all add: descriptor_names_def example_cached_entries)
  have ic: "index' example_state_cached = []"
    by (simp add: example_state_cached_def)
  from run_all_generate_index_helper_returns [of example_env example_state_cached ?L]
  obtain s1 where r1: "run_all (generate_index_helper example_env) ?L example_state_cached = Inr s1"
    "index' s1 = example_index"
    by (auto simp: example_cached_entries ic dict_def dict_update_def example_index_def)
  from run_all_generate_index_helper_returns [of example_env example_state_cached "rev ?L"]
  obtain s2 where r2: "run_all (generate_index_helper example_env) (rev ?L) example_state_cached =
      Inr s2" "index' s2 = rev example_index"
    by (auto simp: example_cached_entries ic dict_def dict_update_def example_index_def)
  have dj: "\<forall>u \<in> set ?L. \<forall>v \<in> set ?L. u \<noteq> v \<longrightarrow>
      descriptor_names example_env (files example_state_cached) u \<inter>
      descriptor_names example_env (files example_state_cached) v = {}"
    by (simp add: nm)
  have q: "do_queue example_env (generate_index_helper example_env) ?L example_state_cached =
      Inr s1"
    "do_queue example_env_reversed (generate_index_helper example_env) ?L example_state_cached =
      Inr s2"
    using r1(1) r2(1) by (simp_all only: do_queue_def sch)
  have ms: "mset (schedule example_env ?L) = mset ?L"
    "mset (schedule example_env_reversed ?L) = mset ?L"
    by (simp_all only: sch mset_rev)
  from generate_index_rebuilds [of example_state_cached example_state_cached example_env] ms q dj
  have 3: "map_of (index' s1) = map_of (index' s2)" by blast
  from ms nm q r1(2) r2(2) 3 have 4: "mset (schedule example_env [''http://h/A.pdsc'', ''http://h/B.pdsc'', ''http://h/C.pdsc'']) =
       mset [''http://h/A.pdsc'', ''http://h/B.pdsc'', ''http://h/C.pdsc''] \<and>
     mset (schedule example_env_reversed
             [''http://h/A.pdsc'', ''http://h/B.pdsc'', ''http://h/C.pdsc'']) =
       mset [''http://h/A.pdsc'', ''http://h/B.pdsc'', ''http://h/C.pdsc''] \<and>
     descriptor_names example_env (files example_state_cached) ''http://h/A.pdsc'' =
       {''LPC1768''} \<and>
     descriptor_names example_env (files example_state_cached) ''http://h/B.pdsc'' = {} \<and>
     descriptor_names example_env (files example_state_cached) ''http://h/C.pdsc'' =
       {''LPC1769''} \<and>
     (\<exists>s1 s2.
        do_queue example_env (generate_index_helper example_env)
          [''http://h/A.pdsc'', ''http://h/B.pdsc'', ''http://h/C.pdsc''] example_state_cached =
          Inr s1 \<and>
        do_queue example_env_reversed (generate_index_helper example_env)
          [''http://h/A.pdsc'', ''http://h/B.pdsc'', ''http://h/C.pdsc''] example_state_cached =
          Inr s2 \<and>
        index' s1 = example_index \<and> index' s2 = rev example_index \<and>
        map_of (index' s1) = map_of (index' s2))"
    by blast
  from a 1 2 u example_generate_index have "files example_state_stale = files example_state_cached \<and>
   urls example_state_stale = urls example_state_cached \<and>
   no_timeouts example_state_stale = no_timeouts example_state_cached \<and>
   index' example_state_stale = example_index3 \<and>
   on_return index_and_files (generate_index example_env example_state_stale) =
     Inr (example_index, files example_state_indexed) \<and>
   generate_index example_env example_state_cached = Inr example_state_indexed \<and>
   urls example_state_indexed =
     Some [''http://h/A.pdsc'', ''http://h/B.pdsc'', ''http://h/C.pdsc''] \<and>
   on_return index_and_files (generate_index example_env example_state_indexed) =
     Inr (example_index, files example_state_indexed)"
    by (simp add: i)
  with 4 show ?thesis by blast
qed


end
